theory Spec2Isabelle
  imports Complex_Main
begin

section \<open>Strings and characters\<close>

text \<open>
  Python strings are modelled as HOL strings: a character is a code point below 256.
  Python floats are modelled as exact reals and Python ints as \<open>int\<close>.
\<close>

definition dquote :: char where
  "dquote = CHR 0x22"

definition newline :: char where
  "newline = CHR 0x0A"

text \<open>The characters for which \<^verbatim>\<open>str.isspace\<close> holds, which are also those matched
  by \<^verbatim>\<open>\s\<close> in a \<^verbatim>\<open>str\<close> pattern.\<close>

definition is_space :: "char \<Rightarrow> bool" where
  "is_space c \<longleftrightarrow> c \<in> set [CHR 0x09, CHR 0x0A, CHR 0x0B, CHR 0x0C, CHR 0x0D,
                           CHR 0x1C, CHR 0x1D, CHR 0x1E, CHR 0x1F, CHR 0x20,
                           CHR 0x85, CHR 0xA0]"

definition is_digit :: "char \<Rightarrow> bool" where
  "is_digit c \<longleftrightarrow> c \<in> set ''0123456789''"

text \<open>Case folding as \<^verbatim>\<open>re.IGNORECASE\<close> performs it on the letters of the patterns
  used here.\<close>

definition lower_char :: "char \<Rightarrow> char" where
  "lower_char c =
     (case map_of (zip ''ABCDEFGHIJKLMNOPQRSTUVWXYZ'' ''abcdefghijklmnopqrstuvwxyz'') c of
        Some l \<Rightarrow> l
      | None \<Rightarrow> c)"

text \<open>\<^verbatim>\<open>str.strip()\<close>: leading and trailing whitespace removed.\<close>

definition lstrip :: "string \<Rightarrow> string" where
  "lstrip s = dropWhile is_space s"

definition rstrip :: "string \<Rightarrow> string" where
  "rstrip s = rev (dropWhile is_space (rev s))"

definition strip :: "string \<Rightarrow> string" where
  "strip s = rstrip (lstrip s)"

text \<open>\<^verbatim>\<open>str.startswith\<close>.\<close>

definition startswith :: "string \<Rightarrow> string \<Rightarrow> bool" where
  "startswith s p \<longleftrightarrow> take (length p) s = p"


section \<open>Regular expressions as used by \<^verbatim>\<open>re.match\<close>\<close>

text \<open>
  The fragment of Python's regular expressions that the patterns of the program use.
  An atom consumes one character; \<open>Dot\<close> is \<^verbatim>\<open>.\<close> (any character but a newline),
  \<open>DigitC\<close> is \<^verbatim>\<open>\d\<close>, \<open>SpaceC\<close> is \<^verbatim>\<open>\s\<close>, \<open>NonSpaceC\<close> is \<^verbatim>\<open>\S\<close>,
  \<open>NoneOf cs\<close> is a negated bracket of literal characters and \<open>OneOf\<close> a bracket
  of atoms.
\<close>

datatype atom =
    Chr char
  | Dot
  | DigitC
  | SpaceC
  | NonSpaceC
  | NoneOf "char list"
  | OneOf "atom list"

datatype regex =
    Atom atom
  | Eps
  | Eol
  | Seq regex regex
  | Alt regex regex
  | Star regex
  | Group nat regex

fun atom_ok :: "bool \<Rightarrow> atom \<Rightarrow> char \<Rightarrow> bool" where
  "atom_ok ic (Chr c) x = (if ic then lower_char x = lower_char c else x = c)"
| "atom_ok ic Dot x = (x \<noteq> newline)"
| "atom_ok ic DigitC x = is_digit x"
| "atom_ok ic SpaceC x = is_space x"
| "atom_ok ic NonSpaceC x = (\<not> is_space x)"
| "atom_ok ic (NoneOf cs) x = (x \<notin> set cs)"
| "atom_ok ic (OneOf as) x = list_ex (\<lambda>a. atom_ok ic a x) as"

text \<open>One or more repetitions, greedy.\<close>

definition Plus :: "regex \<Rightarrow> regex" where
  "Plus r = Seq r (Star r)"

text \<open>A literal word, character by character.\<close>

fun Lit :: "string \<Rightarrow> regex" where
  "Lit [] = Eps"
| "Lit (c # cs) = Seq (Atom (Chr c)) (Lit cs)"

text \<open>
  A matching state is the text still to be read and the groups captured so far (the most
  recent capture first). \<open>rmatch ic r st\<close> lists every way in which \<open>r\<close> can match
  at the front of the text, in the order in which Python's backtracking matcher tries
  them: alternatives left to right, a star first with one more repetition and last with
  none. \<open>ic\<close> is the \<^verbatim>\<open>re.IGNORECASE\<close> flag.
\<close>

type_synonym captures = "(nat \<times> string) list"

type_synonym mstate = "string \<times> captures"

function rmatch :: "bool \<Rightarrow> regex \<Rightarrow> mstate \<Rightarrow> mstate list" where
  "rmatch ic (Atom a) (s, cs) =
     (case s of [] \<Rightarrow> [] | x # xs \<Rightarrow> if atom_ok ic a x then [(xs, cs)] else [])"
| "rmatch ic Eps st = [st]"
| "rmatch ic Eol (s, cs) = (if s = [] \<or> s = [newline] then [(s, cs)] else [])"
| "rmatch ic (Seq r1 r2) st = concat (map (rmatch ic r2) (rmatch ic r1 st))"
| "rmatch ic (Alt r1 r2) st = rmatch ic r1 st @ rmatch ic r2 st"
| "rmatch ic (Star r) (s, cs) =
     concat (map (\<lambda>st'. if length (fst st') < length s then rmatch ic (Star r) st' else [])
                 (rmatch ic r (s, cs)))
     @ [(s, cs)]"
| "rmatch ic (Group n r) (s, cs) =
     map (\<lambda>st'. (fst st', (n, take (length s - length (fst st')) s) # snd st'))
         (rmatch ic r (s, cs))"
  by pat_completeness auto
termination
  by (relation "measures [\<lambda>(ic, r, st). size r, \<lambda>(ic, r, st). length (fst st)]") auto

text \<open>\<^verbatim>\<open>re.match(pattern, text)\<close>: the first successful way, anchored at the start of
  the text; \<open>None\<close> when there is none. The result is the captured groups.\<close>

definition re_match :: "bool \<Rightarrow> regex \<Rightarrow> string \<Rightarrow> captures option" where
  "re_match ic r s = (case rmatch ic r (s, []) of [] \<Rightarrow> None | st # _ \<Rightarrow> Some (snd st))"

text \<open>
  The exceptions that the modelled code can meet. \<open>NoGroup\<close> stands for reading a
  group that took no part in a match: Python yields \<^verbatim>\<open>None\<close> there, and the code would
  go on with it in place of a string. No handler of the program catches it.
\<close>

datatype exn = ValueError | IndexError | NoGroup

text \<open>\<^verbatim>\<open>match.group(n)\<close>: the most recent capture of group \<open>n\<close>.\<close>

definition group :: "captures \<Rightarrow> nat \<Rightarrow> exn + string" where
  "group cs n = (case map_of cs n of None \<Rightarrow> Inl NoGroup | Some g \<Rightarrow> Inr g)"

text \<open>Sequencing of computations that may raise.\<close>

definition bind_exn :: "exn + 'a \<Rightarrow> ('a \<Rightarrow> exn + 'b) \<Rightarrow> exn + 'b" where
  "bind_exn r f = (case r of Inl e \<Rightarrow> Inl e | Inr x \<Rightarrow> f x)"

text \<open>Concatenation of the parts of a pattern.\<close>

definition seqs :: "regex list \<Rightarrow> regex" where
  "seqs rs = foldr Seq rs Eps"

section \<open>The bot detector\<close>

subsection \<open>Data\<close>

text \<open>
  Modelled from the spec: the class \<^verbatim>\<open>TrafficPattern\<close> is declared in the module
  \<^verbatim>\<open>src.analyzer.core\<close>, which the detector imports. The record has the fields that
  the detector reads, with the types the data model gives them.
\<close>

record TrafficPattern =
  ip :: string
  request_count :: int
  requests_per_minute :: real
  user_agents :: "string list"
  unique_paths :: int
  error_rate :: real
  suspicious_requests :: int
  avg_response_time :: real

record BotSignature =
  name :: string
  user_agent_patterns :: "regex list"
  behavior_patterns :: "string list"
  confidence_score :: real
  description :: string

text \<open>
  A reason is the text that the detector appends; the formatted numbers of the f-strings
  are kept as the values they render.
\<close>

datatype reason =
    HighRequestRate real
  | BotLikeUserAgent
  | LowPathDiversity
  | HighErrorRate real
  | SuspiciousPathRequests int
  | SuspiciousTiming

record BotDetectionResult =
  result_ip :: string
  is_bot :: bool
  confidence :: real
  reasons :: "reason list"
  risk_level :: string
  recommended_action :: string

subsection \<open>Signatures and thresholds\<close>

text \<open>\<^verbatim>\<open>.*word.*\<close>\<close>

definition around :: "string \<Rightarrow> regex" where
  "around w = Seq (Star (Atom Dot)) (Seq (Lit w) (Star (Atom Dot)))"

text \<open>\<^verbatim>\<open>word.*\<close>\<close>

definition leading :: "string \<Rightarrow> regex" where
  "leading w = Seq (Lit w) (Star (Atom Dot))"

definition bot_signatures :: "BotSignature list" where
  "bot_signatures =
    [\<lparr>name = ''Curl Bot'',
      user_agent_patterns = [leading ''curl/''],
      behavior_patterns = [''high_frequency'', ''single_path'', ''tool_based''],
      confidence_score = 0.9,
      description = ''Command-line tool often used for automated requests''\<rparr>,
     \<lparr>name = ''Python Requests'',
      user_agent_patterns = [leading ''python-requests/''],
      behavior_patterns = [''high_frequency'', ''api_focused'', ''automated''],
      confidence_score = 0.8,
      description = ''Python HTTP library commonly used in scripts''\<rparr>,
     \<lparr>name = ''Wget Bot'',
      user_agent_patterns = [leading ''Wget/''],
      behavior_patterns = [''sequential_download'', ''high_frequency''],
      confidence_score = 0.9,
      description = ''Download tool often used for scraping''\<rparr>,
     \<lparr>name = ''Generic Bot'',
      user_agent_patterns = [around ''bot'', around ''crawler'', around ''spider''],
      behavior_patterns = [''systematic_crawling''],
      confidence_score = 0.7,
      description = ''Generic bot patterns in user agent''\<rparr>,
     \<lparr>name = ''Headless Browser'',
      user_agent_patterns = [leading ''HeadlessChrome'', leading ''PhantomJS''],
      behavior_patterns = [''automated_browsing''],
      confidence_score = 0.6,
      description = ''Headless browser automation''\<rparr>,
     \<lparr>name = ''Security Scanner'',
      user_agent_patterns = [around ''scan'', around ''vuln'', around ''security''],
      behavior_patterns = [''vulnerability_scanning'', ''path_enumeration''],
      confidence_score = 0.95,
      description = ''Security scanning tools''\<rparr>]"

text \<open>The entries of \<^verbatim>\<open>rate_limit_thresholds\<close> that the detector reads.\<close>

definition requests_per_minute_threshold :: real where
  "requests_per_minute_threshold = 10"

definition error_rate_threshold :: real where
  "error_rate_threshold = 0.3"

subsection \<open>Scoring\<close>

text \<open>
  \<^verbatim>\<open>_analyze_user_agents\<close>: the three nested loops update \<open>bot_score\<close> with
  \<^verbatim>\<open>max\<close> at every matching pattern.
\<close>

definition ua_matches :: "regex \<Rightarrow> string \<Rightarrow> bool" where
  "ua_matches pat ua \<longleftrightarrow> re_match True pat ua \<noteq> None"

fun scan_patterns :: "real \<Rightarrow> regex list \<Rightarrow> string \<Rightarrow> real \<Rightarrow> real" where
  "scan_patterns score [] ua bot_score = bot_score"
| "scan_patterns score (pat # pats) ua bot_score =
     scan_patterns score pats ua (if ua_matches pat ua then max bot_score score else bot_score)"

fun scan_signatures :: "BotSignature list \<Rightarrow> string \<Rightarrow> real \<Rightarrow> real" where
  "scan_signatures [] ua bot_score = bot_score"
| "scan_signatures (sg # sgs) ua bot_score =
     scan_signatures sgs ua
       (scan_patterns (confidence_score sg) (user_agent_patterns sg) ua bot_score)"

fun scan_user_agents :: "BotSignature list \<Rightarrow> string list \<Rightarrow> real \<Rightarrow> real" where
  "scan_user_agents sgs [] bot_score = bot_score"
| "scan_user_agents sgs (ua # uas) bot_score =
     scan_user_agents sgs uas (scan_signatures sgs ua bot_score)"

definition analyze_user_agents :: "string list \<Rightarrow> real" where
  "analyze_user_agents uas =
     (if uas = [] then 0.5 else scan_user_agents bot_signatures uas 0)"

definition is_timing_suspicious :: "TrafficPattern \<Rightarrow> bool" where
  "is_timing_suspicious p \<longleftrightarrow> requests_per_minute p > 5 \<and> avg_response_time p < 100"

definition calculate_risk_level :: "real \<Rightarrow> TrafficPattern \<Rightarrow> string" where
  "calculate_risk_level conf p =
     (if conf \<ge> 0.9 \<or> suspicious_requests p > 5 then ''CRITICAL''
      else if conf \<ge> 0.7 \<or> requests_per_minute p > 20 then ''HIGH''
      else if conf \<ge> 0.5 \<or> requests_per_minute p > 10 then ''MEDIUM''
      else ''LOW'')"

definition actions :: "(string \<times> string) list" where
  "actions =
    [(''CRITICAL'', ''BLOCK_IMMEDIATELY - High confidence malicious bot''),
     (''HIGH'', ''RATE_LIMIT_STRICT - Apply strict rate limiting''),
     (''MEDIUM'', ''RATE_LIMIT_MODERATE - Apply moderate rate limiting''),
     (''LOW'', ''MONITOR - Continue monitoring for patterns'')]"

definition recommend_action :: "string \<Rightarrow> TrafficPattern \<Rightarrow> string" where
  "recommend_action level p =
     (case map_of actions level of Some a \<Rightarrow> a | None \<Rightarrow> ''MONITOR'')"

text \<open>
  \<^verbatim>\<open>_analyze_single_ip\<close>. The running pair is \<open>(confidence, reasons)\<close>; each step is one
  of the six blocks of the function, in the order of the source.
\<close>

type_synonym score = "real \<times> reason list"

definition rate_step :: "TrafficPattern \<Rightarrow> score \<Rightarrow> score" where
  "rate_step p = (\<lambda>(c, rs).
     if requests_per_minute p > requests_per_minute_threshold
     then (c + 0.3, rs @ [HighRequestRate (requests_per_minute p)]) else (c, rs))"

definition user_agent_step :: "TrafficPattern \<Rightarrow> score \<Rightarrow> score" where
  "user_agent_step p = (\<lambda>(c, rs).
     let bot_ua_score = analyze_user_agents (user_agents p)
     in (c + bot_ua_score * 0.3, if bot_ua_score > 0 then rs @ [BotLikeUserAgent] else rs))"

definition path_step :: "TrafficPattern \<Rightarrow> score \<Rightarrow> score" where
  "path_step p = (\<lambda>(c, rs).
     if unique_paths p = 1 \<and> request_count p > 10
     then (c + 0.2, rs @ [LowPathDiversity]) else (c, rs))"

definition error_step :: "TrafficPattern \<Rightarrow> score \<Rightarrow> score" where
  "error_step p = (\<lambda>(c, rs).
     if error_rate p > error_rate_threshold
     then (c + 0.2, rs @ [HighErrorRate (error_rate p)]) else (c, rs))"

definition suspicious_step :: "TrafficPattern \<Rightarrow> score \<Rightarrow> score" where
  "suspicious_step p = (\<lambda>(c, rs).
     if suspicious_requests p > 0
     then (c + 0.4, rs @ [SuspiciousPathRequests (suspicious_requests p)]) else (c, rs))"

definition timing_step :: "TrafficPattern \<Rightarrow> score \<Rightarrow> score" where
  "timing_step p = (\<lambda>(c, rs).
     if is_timing_suspicious p then (c + 0.1, rs @ [SuspiciousTiming]) else (c, rs))"

definition raw_score :: "TrafficPattern \<Rightarrow> score" where
  "raw_score p =
     timing_step p (suspicious_step p (error_step p (path_step p
       (user_agent_step p (rate_step p (0, []))))))"

definition analyze_single_ip :: "TrafficPattern \<Rightarrow> BotDetectionResult" where
  "analyze_single_ip p =
     (let (conf, rs) = raw_score p;
          bot = (conf > 0.5);
          level = calculate_risk_level conf p;
          action = recommend_action level p
      in \<lparr>result_ip = ip p,
          is_bot = bot,
          confidence = min 1.0 conf,
          reasons = rs,
          risk_level = level,
          recommended_action = action\<rparr>)"

text \<open>
  \<^verbatim>\<open>detect_bots\<close>: the dictionaries are association lists in insertion order, which is
  the order in which Python iterates them.
\<close>

definition detect_bots :: "(string \<times> TrafficPattern) list \<Rightarrow> (string \<times> BotDetectionResult) list" where
  "detect_bots traffic_patterns = map (\<lambda>(k, p). (k, analyze_single_ip p)) traffic_patterns"

subsection \<open>Blocklist export\<close>

datatype error = KeyError string

definition risk_order :: "(string \<times> nat) list" where
  "risk_order = [(''LOW'', 0), (''MEDIUM'', 1), (''HIGH'', 2), (''CRITICAL'', 3)]"

text \<open>\<^verbatim>\<open>risk_order[key]\<close>, which raises \<^verbatim>\<open>KeyError\<close> on a missing key.\<close>

definition risk_rank :: "string \<Rightarrow> error + nat" where
  "risk_rank key = (case map_of risk_order key of None \<Rightarrow> Inl (KeyError key) | Some n \<Rightarrow> Inr n)"

text \<open>The list comprehension: the first failing lookup aborts it.\<close>

fun collect_ips :: "nat \<Rightarrow> BotDetectionResult list \<Rightarrow> error + string list" where
  "collect_ips min_level [] = Inr []"
| "collect_ips min_level (r # rs) =
     (case risk_rank (risk_level r) of
        Inl e \<Rightarrow> Inl e
      | Inr n \<Rightarrow>
          (case collect_ips min_level rs of
             Inl e \<Rightarrow> Inl e
           | Inr ips \<Rightarrow> Inr (if n \<ge> min_level then result_ip r # ips else ips)))"

definition export_blocklist :: "(string \<times> BotDetectionResult) list \<Rightarrow> string \<Rightarrow> error + string list" where
  "export_blocklist detection_results min_risk_level =
     (case risk_rank min_risk_level of
        Inl e \<Rightarrow> Inl e
      | Inr min_level \<Rightarrow> collect_ips min_level (map snd detection_results))"

text \<open>The class of a raised exception, by its Python name.\<close>

fun exception_class :: "error \<Rightarrow> string" where
  "exception_class (KeyError key) = ''KeyError''"

text \<open>A call ends in an exception of the class named.\<close>

definition fails_with :: "string \<Rightarrow> error + 'a \<Rightarrow> bool" where
  "fails_with cls r = (case r of Inl e \<Rightarrow> exception_class e = cls | Inr x \<Rightarrow> False)"

text \<open>
  The call together with the dictionary as the call leaves it: the body of
  \<^verbatim>\<open>export_blocklist\<close> reads \<^verbatim>\<open>detection_results\<close> and assigns to no part of it.
\<close>

definition export_blocklist_call ::
    "(string \<times> BotDetectionResult) list \<Rightarrow> string
      \<Rightarrow> (string \<times> BotDetectionResult) list \<times> (error + string list)" where
  "export_blocklist_call detection_results min_risk_level =
     (detection_results, export_blocklist detection_results min_risk_level)"

definition matched_scores :: "BotSignature list \<Rightarrow> string list \<Rightarrow> real set" where
  "matched_scores sgs uas =
     {confidence_score sg | sg. sg \<in> set sgs \<and>
        (\<exists>pat \<in> set (user_agent_patterns sg). \<exists>ua \<in> set uas. ua_matches pat ua)}"

subsection \<open>The signals of the score, as the specification words them\<close>

definition ua_score :: "string list \<Rightarrow> real" where
  "ua_score uas =
     (if uas = [] then 0.5 else Max (insert 0 (matched_scores bot_signatures uas)))"

definition signal_rate :: "TrafficPattern \<Rightarrow> bool" where
  "signal_rate p \<longleftrightarrow> requests_per_minute p > 10"

definition signal_paths :: "TrafficPattern \<Rightarrow> bool" where
  "signal_paths p \<longleftrightarrow> unique_paths p = 1 \<and> request_count p > 10"

definition signal_errors :: "TrafficPattern \<Rightarrow> bool" where
  "signal_errors p \<longleftrightarrow> error_rate p > 0.3"

definition signal_suspicious :: "TrafficPattern \<Rightarrow> bool" where
  "signal_suspicious p \<longleftrightarrow> suspicious_requests p > 0"

definition signal_timing :: "TrafficPattern \<Rightarrow> bool" where
  "signal_timing p \<longleftrightarrow> requests_per_minute p > 5 \<and> avg_response_time p < 100"

definition signal_sum :: "TrafficPattern \<Rightarrow> real" where
  "signal_sum p =
     (if signal_rate p then 0.3 else 0)
     + 0.3 * ua_score (user_agents p)
     + (if signal_paths p then 0.2 else 0)
     + (if signal_errors p then 0.2 else 0)
     + (if signal_suspicious p then 0.4 else 0)
     + (if signal_timing p then 0.1 else 0)"

definition signal_reasons :: "TrafficPattern \<Rightarrow> reason list" where
  "signal_reasons p =
     (if signal_rate p then [HighRequestRate (requests_per_minute p)] else [])
     @ (if ua_score (user_agents p) > 0 then [BotLikeUserAgent] else [])
     @ (if signal_paths p then [LowPathDiversity] else [])
     @ (if signal_errors p then [HighErrorRate (error_rate p)] else [])
     @ (if signal_suspicious p then [SuspiciousPathRequests (suspicious_requests p)] else [])
     @ (if signal_timing p then [SuspiciousTiming] else [])"

datatype signal =
    RateSignal | UserAgentSignal | PathSignal | ErrorSignal | SuspiciousSignal | TimingSignal

fun triggers :: "signal \<Rightarrow> TrafficPattern \<Rightarrow> bool" where
  "triggers RateSignal p = signal_rate p"
| "triggers UserAgentSignal p = (ua_score (user_agents p) > 0)"
| "triggers PathSignal p = signal_paths p"
| "triggers ErrorSignal p = signal_errors p"
| "triggers SuspiciousSignal p = signal_suspicious p"
| "triggers TimingSignal p = signal_timing p"

definition known_level :: "string \<Rightarrow> bool" where
  "known_level l \<longleftrightarrow> l \<in> {''LOW'', ''MEDIUM'', ''HIGH'', ''CRITICAL''}"

definition level_rank :: "string \<Rightarrow> nat" where
  "level_rank l =
     (if l = ''LOW'' then 0 else if l = ''MEDIUM'' then 1 else if l = ''HIGH'' then 2 else 3)"

definition valid_results :: "(string \<times> BotDetectionResult) list \<Rightarrow> bool" where
  "valid_results results \<longleftrightarrow> (\<forall>r \<in> set (map snd results). known_level (risk_level r))"

definition curl_hammer :: TrafficPattern where
  "curl_hammer = \<lparr>ip = ''10.0.0.1'', request_count = 50, requests_per_minute = 50,
     user_agents = [''curl/8''], unique_paths = 1, error_rate = 0,
     suspicious_requests = 50, avg_response_time = 200\<rparr>"

definition quiet_visitor :: TrafficPattern where
  "quiet_visitor = \<lparr>ip = ''10.0.0.2'', request_count = 5, requests_per_minute = 0.1,
     user_agents = [], unique_paths = 4, error_rate = 0,
     suspicious_requests = 0, avg_response_time = 250\<rparr>"

definition sample_results :: "(string \<times> BotDetectionResult) list" where
  "sample_results =
    [(''10.0.0.1'', \<lparr>result_ip = ''10.0.0.1'', is_bot = True, confidence = 1,
        reasons = [BotLikeUserAgent], risk_level = ''CRITICAL'',
        recommended_action = ''BLOCK_IMMEDIATELY - High confidence malicious bot''\<rparr>),
     (''10.0.0.2'', \<lparr>result_ip = ''10.0.0.2'', is_bot = False, confidence = 0.15,
        reasons = [BotLikeUserAgent], risk_level = ''LOW'',
        recommended_action = ''MONITOR - Continue monitoring for patterns''\<rparr>),
     (''10.0.0.3'', \<lparr>result_ip = ''10.0.0.3'', is_bot = True, confidence = 0.7,
        reasons = [SuspiciousPathRequests 1, HighRequestRate 12], risk_level = ''HIGH'',
        recommended_action = ''RATE_LIMIT_STRICT - Apply strict rate limiting''\<rparr>)]"

section \<open>The log parser\<close>

subsection \<open>Data\<close>

text \<open>
  The value of a \<^verbatim>\<open>datetime\<close>; \<open>utcoffset\<close> is the offset in minutes of an aware
  value and \<open>None\<close> for a naive one.
\<close>

record datetime =
  year :: int
  month :: int
  day :: int
  hour :: int
  minute :: int
  second :: int
  utcoffset :: "int option"

text \<open>
  \<^verbatim>\<open>datetime.strptime(text, format)\<close> belongs to the Python library. The parser takes it
  as a parameter: \<open>None\<close> is its \<^verbatim>\<open>ValueError\<close>, the one exception it raises on
  string arguments.
\<close>

type_synonym strptime = "string \<Rightarrow> string \<Rightarrow> datetime option"

text \<open>
  Modelled from the spec: the class \<^verbatim>\<open>LogEntry\<close> that the parser imports from
  \<^verbatim>\<open>src.analyzer.core\<close>; the fields are those that the parser passes to its constructor
  (the dataclass of the same name in \<^verbatim>\<open>main_analyzer.py\<close> has the same fields).
\<close>

record LogEntry =
  entry_ip :: string  country :: string
  timestamp :: datetime  "method" :: string  path :: string
  status_code :: int  response_size :: int
  user_agent :: string  response_time :: int

subsection \<open>The three patterns\<close>

definition nonspaces :: regex where
  "nonspaces = Plus (Atom NonSpaceC)"

definition spaces :: regex where
  "spaces = Plus (Atom SpaceC)"

definition digits :: regex where
  "digits = Plus (Atom DigitC)"

definition unquoted :: regex where
  "unquoted = Star (Atom (NoneOf [dquote]))"

definition quote :: regex where
  "quote = Atom (Chr dquote)"

text \<open>\<^verbatim>\<open>^(\S+) \S+ \S+ \[([^\]]+)\] "(\S+) ([^"]*) \S+" (\d+) (\d+|-)\<close>\<close>

definition common_log_pattern :: regex where
  "common_log_pattern = seqs
     [Group 1 nonspaces, Lit '' '', nonspaces, Lit '' '', nonspaces, Lit '' ['',
      Group 2 (Plus (Atom (NoneOf '']''))), Lit ''] '', quote,
      Group 3 nonspaces, Lit '' '', Group 4 unquoted, Lit '' '', nonspaces, quote,
      Lit '' '', Group 5 digits, Lit '' '', Group 6 (Alt digits (Lit ''-''))]"

text \<open>\<^verbatim>\<open>^(\S+) \S+ \S+ \[([^\]]+)\] "(\S+) ([^"]*) \S+" (\d+) (\d+|-) "([^"]*)" "([^"]*)"\<close>\<close>

definition combined_log_pattern :: regex where
  "combined_log_pattern = seqs
     [Group 1 nonspaces, Lit '' '', nonspaces, Lit '' '', nonspaces, Lit '' ['',
      Group 2 (Plus (Atom (NoneOf '']''))), Lit ''] '', quote,
      Group 3 nonspaces, Lit '' '', Group 4 unquoted, Lit '' '', nonspaces, quote,
      Lit '' '', Group 5 digits, Lit '' '', Group 6 (Alt digits (Lit ''-'')),
      Lit '' '', quote, Group 7 unquoted, quote, Lit '' '', quote, Group 8 unquoted, quote]"

text \<open>\<^verbatim>\<open>^(\S+) - (\S+) - \[([^\]]+)\] "(\S+) ([^"]*) HTTP/[\d\.]+"\s+(\d+)\s+(\d+)\s+"([^"]*)"\s+"([^"]*)"\s+(\d+)$\<close>\<close>

definition custom_log_pattern :: regex where
  "custom_log_pattern = seqs
     [Group 1 nonspaces, Lit '' - '', Group 2 nonspaces, Lit '' - ['',
      Group 3 (Plus (Atom (NoneOf '']''))), Lit ''] '', quote,
      Group 4 nonspaces, Lit '' '', Group 5 unquoted, Lit '' HTTP/'',
      Plus (Atom (OneOf [DigitC, Chr CHR ''.''])), quote, spaces,
      Group 6 digits, spaces, Group 7 digits, spaces,
      quote, Group 8 unquoted, quote, spaces, quote, Group 9 unquoted, quote, spaces,
      Group 10 digits, Eol]"

subsection \<open>Numbers\<close>

definition digit_value :: "char \<Rightarrow> int" where
  "digit_value c =
     (case map_of (zip ''0123456789'' [0, 1, 2, 3, 4, 5, 6, 7, 8, 9]) c of
        Some d \<Rightarrow> d
      | None \<Rightarrow> 0)"

text \<open>The default limit of CPython on the digits that \<^verbatim>\<open>int\<close> converts.\<close>

definition max_str_digits :: nat where
  "max_str_digits = 4300"

text \<open>
  \<^verbatim>\<open>int(text)\<close> on the texts that \<^verbatim>\<open>\d+\<close> and \<^verbatim>\<open>-\<close> capture: the value of a run of
  digits, and \<^verbatim>\<open>ValueError\<close> for anything else or for a run beyond the limit.
\<close>

definition py_int :: "string \<Rightarrow> exn + int" where
  "py_int s =
     (if s \<noteq> [] \<and> list_all is_digit s \<and> length s \<le> max_str_digits
      then Inr (foldl (\<lambda>a c. 10 * a + digit_value c) 0 s)
      else Inl ValueError)"

subsection \<open>Timestamps\<close>

definition timestamp_formats :: "string list" where
  "timestamp_formats =
     [''%d/%b/%Y:%H:%M:%S %z'',
      ''%d/%b/%Y:%H:%M:%S'',
      ''%d/%m/%Y:%H:%M:%S'',
      ''%Y-%m-%d %H:%M:%S'',
      ''%d/%b/%Y:%H:%M:%S +0000'']"

text \<open>The loop over the formats: the first one that \<open>strptime\<close> accepts.\<close>

fun try_formats :: "strptime \<Rightarrow> string \<Rightarrow> string list \<Rightarrow> datetime option" where
  "try_formats strptime text [] = None"
| "try_formats strptime text (fmt # fmts) =
     (case strptime text fmt of
        Some d \<Rightarrow> Some d
      | None \<Rightarrow> try_formats strptime text fmts)"

text \<open>A sign and four digits.\<close>

fun is_offset :: "string \<Rightarrow> bool" where
  "is_offset [sg, a, b, c, d] =
     ((sg = CHR ''+'' \<or> sg = CHR ''-'') \<and> is_digit a \<and> is_digit b \<and> is_digit c \<and> is_digit d)"
| "is_offset _ = False"

text \<open>
  \<^verbatim>\<open>re.sub(r'[+-]\d{4}$', '', text)\<close>: the offset is removed where it ends the text or
  stands before a final newline; the two cases exclude each other.
\<close>

definition strip_offset :: "string \<Rightarrow> string" where
  "strip_offset text =
     (let n = length text in
      if is_offset (drop (n - 5) text) then take (n - 5) text
      else if drop (n - 1) text = [newline] \<and> is_offset (take 5 (drop (n - 6) text))
      then take (n - 6) text @ [newline]
      else text)"

definition parse_timestamp :: "strptime \<Rightarrow> string \<Rightarrow> datetime option" where
  "parse_timestamp strptime timestamp_str =
     (case try_formats strptime timestamp_str timestamp_formats of
        Some d \<Rightarrow> Some d
      | None \<Rightarrow>
          if CHR ''+'' \<in> set timestamp_str \<or> CHR ''-'' \<in> set timestamp_str
          then try_formats strptime (strip (strip_offset timestamp_str)) timestamp_formats
          else None)"

subsection \<open>The three format parsers\<close>

text \<open>\<^verbatim>\<open>except (ValueError, IndexError): return None\<close>; any other exception goes on.\<close>

definition except_value_index :: "exn + 'a option \<Rightarrow> exn + 'a option" where
  "except_value_index r =
     (case r of
        Inl ValueError \<Rightarrow> Inr None
      | Inl IndexError \<Rightarrow> Inr None
      | Inl NoGroup \<Rightarrow> Inl NoGroup
      | Inr x \<Rightarrow> Inr x)"

text \<open>\<^verbatim>\<open>int(g) if g != '-' else 0\<close>\<close>

definition size_of :: "string \<Rightarrow> exn + int" where
  "size_of g = (if g \<noteq> ''-'' then py_int g else Inr 0)"

definition parse_custom_format :: "strptime \<Rightarrow> string \<Rightarrow> exn + LogEntry option" where
  "parse_custom_format strptime line =
     (case re_match False custom_log_pattern line of
        None \<Rightarrow> Inr None
      | Some m \<Rightarrow> except_value_index
          (bind_exn (group m 1) (\<lambda>ip.
           bind_exn (group m 2) (\<lambda>country.
           bind_exn (group m 3) (\<lambda>timestamp_str.
           bind_exn (group m 4) (\<lambda>method.
           bind_exn (group m 5) (\<lambda>path.
           bind_exn (bind_exn (group m 6) py_int) (\<lambda>status_code.
           bind_exn (bind_exn (group m 7) size_of) (\<lambda>response_size.
           bind_exn (group m 8) (\<lambda>referer.
           bind_exn (group m 9) (\<lambda>user_agent.
           bind_exn (bind_exn (group m 10) py_int) (\<lambda>response_time.
             case parse_timestamp strptime timestamp_str of
               None \<Rightarrow> Inr None
             | Some parsed \<Rightarrow> Inr (Some
                 \<lparr>entry_ip = ip, country = country, timestamp = parsed, method = method,
                  path = path, status_code = status_code, response_size = response_size,
                  user_agent = user_agent, response_time = response_time\<rparr>)))))))))))))"

definition parse_combined_format :: "strptime \<Rightarrow> string \<Rightarrow> exn + LogEntry option" where
  "parse_combined_format strptime line =
     (case re_match False combined_log_pattern line of
        None \<Rightarrow> Inr None
      | Some m \<Rightarrow> except_value_index
          (bind_exn (group m 1) (\<lambda>ip.
           bind_exn (group m 2) (\<lambda>timestamp_str.
           bind_exn (group m 3) (\<lambda>method.
           bind_exn (group m 4) (\<lambda>path.
           bind_exn (bind_exn (group m 5) py_int) (\<lambda>status_code.
           bind_exn (bind_exn (group m 6) size_of) (\<lambda>response_size.
           bind_exn (group m 7) (\<lambda>referer.
           bind_exn (group m 8) (\<lambda>user_agent.
             case parse_timestamp strptime timestamp_str of
               None \<Rightarrow> Inr None
             | Some parsed \<Rightarrow> Inr (Some
                 \<lparr>entry_ip = ip, country = ''--'', timestamp = parsed, method = method,
                  path = path, status_code = status_code, response_size = response_size,
                  user_agent = user_agent, response_time = 0\<rparr>)))))))))))"

definition parse_common_format :: "strptime \<Rightarrow> string \<Rightarrow> exn + LogEntry option" where
  "parse_common_format strptime line =
     (case re_match False common_log_pattern line of
        None \<Rightarrow> Inr None
      | Some m \<Rightarrow> except_value_index
          (bind_exn (group m 1) (\<lambda>ip.
           bind_exn (group m 2) (\<lambda>timestamp_str.
           bind_exn (group m 3) (\<lambda>method.
           bind_exn (group m 4) (\<lambda>path.
           bind_exn (bind_exn (group m 5) py_int) (\<lambda>status_code.
           bind_exn (bind_exn (group m 6) size_of) (\<lambda>response_size.
             case parse_timestamp strptime timestamp_str of
               None \<Rightarrow> Inr None
             | Some parsed \<Rightarrow> Inr (Some
                 \<lparr>entry_ip = ip, country = ''--'', timestamp = parsed, method = method,
                  path = path, status_code = status_code, response_size = response_size, user_agent = [],
                  response_time = 0\<rparr>)))))))))"

subsection \<open>Lines and files\<close>

text \<open>\<^verbatim>\<open>parse_log_line\<close>: an entry is always truthy, so \<^verbatim>\<open>if entry\<close> tests for
  \<^verbatim>\<open>None\<close>.\<close>

definition parse_log_line :: "strptime \<Rightarrow> string \<Rightarrow> exn + LogEntry option" where
  "parse_log_line strptime raw =
     (let line = strip raw in
      if line = [] \<or> startswith line ''#'' then Inr None
      else bind_exn (parse_custom_format strptime line) (\<lambda>entry.
        case entry of
          Some e \<Rightarrow> Inr (Some e)
        | None \<Rightarrow> bind_exn (parse_combined_format strptime line) (\<lambda>entry.
            case entry of
              Some e \<Rightarrow> Inr (Some e)
            | None \<Rightarrow> bind_exn (parse_common_format strptime line) (\<lambda>entry.
                case entry of
                  Some e \<Rightarrow> Inr (Some e)
                | None \<Rightarrow> Inr None))))"

text \<open>The loop of \<^verbatim>\<open>parse_log_file\<close> over the lines of the file, with the list of
  entries built so far.\<close>

fun parse_lines :: "strptime \<Rightarrow> string list \<Rightarrow> LogEntry list \<Rightarrow> exn + LogEntry list" where
  "parse_lines strptime [] entries = Inr entries"
| "parse_lines strptime (line # lines) entries =
     bind_exn (parse_log_line strptime line) (\<lambda>entry.
       case entry of
         Some e \<Rightarrow> parse_lines strptime lines (entries @ [e])
       | None \<Rightarrow> parse_lines strptime lines entries)"

text \<open>
  \<^verbatim>\<open>parse_log_file\<close>. The file system maps a path to the lines of the file; a path
  that cannot be opened or read has no lines. Every exception inside the \<^verbatim>\<open>try\<close> is
  raised again as a plain \<^verbatim>\<open>Exception\<close>.
\<close>

datatype file_error = Exception string

definition parse_log_file ::
    "strptime \<Rightarrow> (string \<rightharpoonup> string list) \<Rightarrow> string \<Rightarrow> file_error + LogEntry list" where
  "parse_log_file strptime fs file_path =
     (case fs file_path of
        None \<Rightarrow> Inl (Exception file_path)
      | Some lines \<Rightarrow>
          (case parse_lines strptime lines [] of
             Inl e \<Rightarrow> Inl (Exception file_path)
           | Inr entries \<Rightarrow> Inr entries))"

subsection \<open>User-agent sanitising\<close>



subsection \<open>Sample input\<close>

text \<open>
  The part of \<open>strptime\<close> that the examples below use: the one timestamp text of the
  sample lines, which the first format accepts. Any other text in the examples is one
  that no format accepts.
\<close>

definition sample_time :: datetime where
  "sample_time = \<lparr>year = 2000, month = 10, day = 10, hour = 13, minute = 55, second = 36,
                   utcoffset = Some (- 420)\<rparr>"

definition sample_strptime :: strptime where
  "sample_strptime text fmt =
     (if text = ''10/Oct/2000:13:55:36 -0700'' \<and> fmt = ''%d/%b/%Y:%H:%M:%S %z''
      then Some sample_time else None)"

definition custom_line :: string where
  \<open>custom_line =
     ''1.2.3.4 - US - [10/Oct/2000:13:55:36 -0700] "GET /a HTTP/1.1" 200 5 "-" "curl/8" 12''\<close>


definition common_line :: string where
  \<open>common_line = ''1.2.3.4 - - [10/Oct/2000:13:55:36 -0700] "GET /a HTTP/1.1" 404 -''\<close>

definition truncated_line :: string where
  \<open>truncated_line = ''1.2.3.4 - - [10/Oct/2000:13:55:36 -0700] "GET /a''\<close>

definition unknown_time_line :: string where
  \<open>unknown_time_line = ''1.2.3.4 - - [yesterday] "GET /a HTTP/1.1" 200 5''\<close>

subsection \<open>Groups that take part in every match\<close>

text \<open>
  The groups of a pattern that are captured in whatever way the pattern matches: those
  outside every alternative and every star. Reading such a group after a successful
  match never yields \<^verbatim>\<open>None\<close>.
\<close>

fun must_groups :: "regex \<Rightarrow> nat set" where
  "must_groups (Atom a) = {}"
| "must_groups Eps = {}"
| "must_groups Eol = {}"
| "must_groups (Seq r1 r2) = must_groups r1 \<union> must_groups r2"
| "must_groups (Alt r1 r2) = must_groups r1 \<inter> must_groups r2"
| "must_groups (Star r) = {}"
| "must_groups (Group n r) = insert n (must_groups r)"

text \<open>A computation that does not end in the exception no handler catches.\<close>

definition benign :: "exn + 'a \<Rightarrow> bool" where
  "benign r \<longleftrightarrow> r \<noteq> Inl NoGroup"

subsection \<open>The parser as the specification describes it\<close>

text \<open>A line that is skipped: empty once stripped, or a comment.\<close>

definition skipped :: "string \<Rightarrow> bool" where
  "skipped raw \<longleftrightarrow> strip raw = [] \<or> startswith (strip raw) ''#''"

text \<open>The three grammars in the order of the specification.\<close>

definition grammars :: "(strptime \<Rightarrow> string \<Rightarrow> exn + LogEntry option) list" where
  "grammars = [parse_custom_format, parse_combined_format, parse_common_format]"

text \<open>The entry of the first attempt that produced one.\<close>

fun first_entry :: "(exn + LogEntry option) list \<Rightarrow> LogEntry option" where
  "first_entry [] = None"
| "first_entry (Inr (Some e) # attempts) = Some e"
| "first_entry (_ # attempts) = first_entry attempts"

text \<open>The entries of the lines that parse, in the order of the lines.\<close>

definition line_entry :: "strptime \<Rightarrow> string \<Rightarrow> LogEntry option" where
  "line_entry strptime raw =
     (case parse_log_line strptime raw of Inr (Some e) \<Rightarrow> Some e | _ \<Rightarrow> None)"

definition kept_entries :: "strptime \<Rightarrow> string list \<Rightarrow> LogEntry list" where
  "kept_entries strptime lines = List.map_filter (line_entry strptime) lines"

subsection \<open>More sample input\<close>

definition agent_line :: string where
  \<open>agent_line =
     ''1.2.3.4 - - [10/Oct/2000:13:55:36 -0700] "GET /a HTTP/1.1" 200 5 "-" "Mozilla/5.0"''\<close>

definition sample_entry :: LogEntry where
  "sample_entry =
     \<lparr>entry_ip = ''1.2.3.4'', country = ''--'', timestamp = sample_time, method = ''GET'',
      path = ''/a'', status_code = 200, response_size = 5, user_agent = [],
      response_time = 0\<rparr>"

definition sample_file :: "string list" where
  "sample_file =
     [custom_line @ [newline], truncated_line @ [newline], ''# comment'' @ [newline],
      [newline], unknown_time_line @ [newline], common_line]"

definition sample_fs :: "string \<rightharpoonup> string list" where
  "sample_fs = [''access.log'' \<mapsto> sample_file]"

subsection \<open>What a group can capture\<close>




subsection \<open>The user agent of an entry\<close>





subsection \<open>Sample lines with a chosen user agent\<close>







section \<open>The DDoS window analyzer\<close>

subsection \<open>Settings and alerts\<close>

text \<open>The dictionary \<^verbatim>\<open>DDOS_DETECTION\<close> of \<^verbatim>\<open>config.py\<close>.\<close>

record ddos_settings =
  time_window_minutes :: int
  min_requests_threshold :: int
  min_ip_diversity :: real
  min_error_rate :: real

definition DDOS_DETECTION :: ddos_settings where
  "DDOS_DETECTION =
     \<lparr>time_window_minutes = 5, min_requests_threshold = 1000, min_ip_diversity = 0.1,
      min_error_rate = 0.5\<rparr>"

text \<open>
  The dataclass \<^verbatim>\<open>DDosAlert\<close> of \<^verbatim>\<open>analysis_result.py\<close>. The fields
  \<^verbatim>\<open>timestamp\<close>, \<^verbatim>\<open>request_count\<close>, \<^verbatim>\<open>unique_ips\<close> and \<^verbatim>\<open>error_rate\<close> carry the
  prefix \<open>alert_\<close>, since other records have fields of these names. The timestamp is
  the start of the window in seconds. The fields \<^verbatim>\<open>severity\<close> and \<^verbatim>\<open>top_ips\<close>, for
  which the specification fixes no rule, are left out.
\<close>

record DDosAlert =
  alert_timestamp :: int
  alert_request_count :: int
  alert_unique_ips :: int
  alert_error_rate :: real
  duration_minutes :: int

text \<open>The reading of a \<^verbatim>\<open>datetime\<close> in seconds, which belongs to the Python library.\<close>

type_synonym clock = "datetime \<Rightarrow> int"

subsection \<open>The scan\<close>

text \<open>
  Modelled from the spec: the DDoS window analyzer of section 4.4 of the specification,
  which is not among the source files. The windows tumble: each entry falls into the
  bucket keyed by the start of its window, a multiple of the window length. The scan
  goes through the entries in their order, keeps the buckets in the order in which they
  open, and emits an alert for each bucket whose request count reaches
  \<^verbatim>\<open>min_requests_threshold\<close>, whose error rate reaches \<^verbatim>\<open>min_error_rate\<close> and whose
  fraction of distinct addresses is below \<^verbatim>\<open>min_ip_diversity\<close>. A response is an error
  when its status is 400 or more.
\<close>

definition window_seconds :: "ddos_settings \<Rightarrow> int" where
  "window_seconds cfg = 60 * time_window_minutes cfg"

definition window_start :: "ddos_settings \<Rightarrow> clock \<Rightarrow> LogEntry \<Rightarrow> int" where
  "window_start cfg clock e =
     (clock (timestamp e) div window_seconds cfg) * window_seconds cfg"

fun add_entry :: "int \<Rightarrow> LogEntry \<Rightarrow> (int \<times> LogEntry list) list \<Rightarrow> (int \<times> LogEntry list) list" where
  "add_entry k e [] = [(k, [e])]"
| "add_entry k e ((k', es) # bs) =
     (if k' = k then (k', es @ [e]) # bs else (k', es) # add_entry k e bs)"

definition group_windows :: "ddos_settings \<Rightarrow> clock \<Rightarrow> LogEntry list \<Rightarrow> (int \<times> LogEntry list) list" where
  "group_windows cfg clock entries =
     foldl (\<lambda>bs e. add_entry (window_start cfg clock e) e bs) [] entries"

definition window_request_count :: "LogEntry list \<Rightarrow> int" where
  "window_request_count es = int (length es)"

definition window_unique_ips :: "LogEntry list \<Rightarrow> int" where
  "window_unique_ips es = int (length (remdups (map entry_ip es)))"

definition window_error_count :: "LogEntry list \<Rightarrow> int" where
  "window_error_count es = int (length (filter (\<lambda>e. status_code e \<ge> 400) es))"

definition window_error_rate :: "LogEntry list \<Rightarrow> real" where
  "window_error_rate es = real_of_int (window_error_count es) / real_of_int (window_request_count es)"

definition is_attack :: "ddos_settings \<Rightarrow> LogEntry list \<Rightarrow> bool" where
  "is_attack cfg es \<longleftrightarrow>
     window_request_count es \<ge> min_requests_threshold cfg
     \<and> window_error_rate es \<ge> min_error_rate cfg
     \<and> real_of_int (window_unique_ips es) / real_of_int (window_request_count es)
         < min_ip_diversity cfg"

definition make_alert :: "ddos_settings \<Rightarrow> int \<times> LogEntry list \<Rightarrow> DDosAlert" where
  "make_alert cfg b =
     \<lparr>alert_timestamp = fst b,
      alert_request_count = window_request_count (snd b),
      alert_unique_ips = window_unique_ips (snd b),
      alert_error_rate = window_error_rate (snd b),
      duration_minutes = time_window_minutes cfg\<rparr>"

definition detect_ddos :: "ddos_settings \<Rightarrow> clock \<Rightarrow> LogEntry list \<Rightarrow> DDosAlert list" where
  "detect_ddos cfg clock entries =
     map (make_alert cfg) (filter (\<lambda>b. is_attack cfg (snd b)) (group_windows cfg clock entries))"

subsection \<open>Windows and thresholds as the specification words them\<close>

text \<open>The entries of the window that starts at \<open>k\<close>.\<close>

definition in_window :: "ddos_settings \<Rightarrow> clock \<Rightarrow> int \<Rightarrow> LogEntry \<Rightarrow> bool" where
  "in_window cfg clock k e \<longleftrightarrow>
     k \<le> clock (timestamp e) \<and> clock (timestamp e) < k + window_seconds cfg"

definition window_entries :: "ddos_settings \<Rightarrow> clock \<Rightarrow> int \<Rightarrow> LogEntry list \<Rightarrow> LogEntry list" where
  "window_entries cfg clock k entries = filter (in_window cfg clock k) entries"

text \<open>The alerts emitted for the window that starts at \<open>k\<close>.\<close>

definition alerts_at :: "int \<Rightarrow> DDosAlert list \<Rightarrow> DDosAlert list" where
  "alerts_at k alerts = filter (\<lambda>a. alert_timestamp a = k) alerts"

definition distinct_ips :: "LogEntry list \<Rightarrow> nat" where
  "distinct_ips es = card (entry_ip ` set es)"

definition error_responses :: "LogEntry list \<Rightarrow> LogEntry list" where
  "error_responses es = filter (\<lambda>e. status_code e \<ge> 400) es"

text \<open>At least 1000 requests, an error rate of at least 0.5, and a fraction of distinct
  addresses below 0.1.\<close>

definition crosses_thresholds :: "LogEntry list \<Rightarrow> bool" where
  "crosses_thresholds es \<longleftrightarrow>
     length es \<ge> 1000
     \<and> real (length (error_responses es)) / real (length es) \<ge> 0.5
     \<and> real (distinct_ips es) / real (length es) < 0.1"

subsection \<open>Sample traffic\<close>

text \<open>Seconds since midnight; the examples stay within one day.\<close>

definition sample_clock :: clock where
  "sample_clock d = 3600 * hour d + 60 * minute d + second d"

definition hit :: "string \<Rightarrow> int \<Rightarrow> datetime \<Rightarrow> LogEntry" where
  "hit address status time = sample_entry\<lparr>entry_ip := address, timestamp := time, status_code := status\<rparr>"

text \<open>A hundred requests from each address at one time, sixty of them answered with an
  error.\<close>

definition burst_from :: "string list \<Rightarrow> datetime \<Rightarrow> LogEntry list" where
  "burst_from addresses time =
     concat (map (\<lambda>address. replicate 60 (hit address 503 time) @ replicate 40 (hit address 200 time))
       addresses)"

definition attackers :: "string list" where
  "attackers =
     [''10.0.0.1'', ''10.0.0.2'', ''10.0.0.3'', ''10.0.0.4'', ''10.0.0.5'', ''10.0.0.6'',
      ''10.0.0.7'', ''10.0.0.8'', ''10.0.0.9'', ''10.0.0.10'', ''10.0.0.11'', ''10.0.0.12'']"

definition calm_time :: datetime where
  "calm_time = sample_time\<lparr>hour := 14, minute := 0\<rparr>"

text \<open>1200 requests from 12 addresses at 13:55:36, then 400 requests at 14:00:36.\<close>

definition sample_traffic :: "LogEntry list" where
  "sample_traffic = burst_from attackers sample_time @ replicate 400 (hit ''10.0.1.1'' 200 calm_time)"

section \<open>Properties of the bot detector\<close>

subsection \<open>The user-agent score\<close>

lemma finite_matched_scores: "finite (matched_scores sgs uas)"
proof -
  have "matched_scores sgs uas \<subseteq> confidence_score ` set sgs"
    by (auto simp: matched_scores_def)
  then show ?thesis by (rule finite_subset) simp
qed

lemma matched_scores_Nil: "matched_scores [] uas = {}"
  by (simp add: matched_scores_def)

lemma matched_scores_Cons:
  "matched_scores (sg # sgs) uas =
     (if \<exists>pat \<in> set (user_agent_patterns sg). \<exists>ua \<in> set uas. ua_matches pat ua
      then insert (confidence_score sg) (matched_scores sgs uas)
      else matched_scores sgs uas)"
  by (auto simp: matched_scores_def)

lemma matched_scores_uas_Cons:
  "matched_scores sgs (ua # uas) = matched_scores sgs [ua] \<union> matched_scores sgs uas"
  by (auto simp: matched_scores_def)

lemma scan_patterns_eq:
  "scan_patterns sc pats ua b =
     (if \<exists>pat \<in> set pats. ua_matches pat ua then max b sc else b)"
  by (induction pats arbitrary: b) auto

lemma Max_insert_max:
  "finite S \<Longrightarrow> Max (insert (max b c) S) = Max (insert b (insert c S))"
  by (cases "S = {}") (auto simp: max.assoc max.commute max.left_commute)

lemma scan_signatures_eq:
  "scan_signatures sgs ua b = Max (insert b (matched_scores sgs [ua]))"
proof (induction sgs arbitrary: b)
  case Nil
  show ?case by (simp add: matched_scores_Nil)
next
  case (Cons sg sgs)
  show ?case
    by (simp add: Cons.IH scan_patterns_eq matched_scores_Cons Max_insert_max
        finite_matched_scores insert_commute)
qed

lemma Max_insert_Max:
  assumes "finite S" and "finite T"
  shows "Max (insert (Max (insert b S)) T) = Max (insert b (S \<union> T))"
proof (cases "T = {}")
  case True
  then show ?thesis by simp
next
  case False
  have "Max (insert (Max (insert b S)) T) = max (Max (insert b S)) (Max T)"
    using assms False by simp
  also have "\<dots> = Max (insert b S \<union> T)"
    using Max_Un [of "insert b S" T] assms False by simp
  also have "insert b S \<union> T = insert b (S \<union> T)"
    by simp
  finally show ?thesis .
qed

lemma scan_user_agents_eq:
  "scan_user_agents sgs uas b = Max (insert b (matched_scores sgs uas))"
proof (induction uas arbitrary: b)
  case Nil
  show ?case by (simp add: matched_scores_def)
next
  case (Cons ua uas)
  show ?case
    by (simp add: Cons.IH scan_signatures_eq matched_scores_uas_Cons [of sgs ua uas]
        Max_insert_Max finite_matched_scores)
qed

lemma analyze_user_agents_eq: "analyze_user_agents uas = ua_score uas"
  by (simp add: analyze_user_agents_def ua_score_def scan_user_agents_eq)

lemma ua_score_nonneg: "0 \<le> ua_score uas"
  by (simp add: ua_score_def finite_matched_scores)

lemma raw_score_eq: "raw_score p = (signal_sum p, signal_reasons p)"
  by (simp add: raw_score_def rate_step_def user_agent_step_def path_step_def error_step_def
      suspicious_step_def timing_step_def analyze_user_agents_eq signal_sum_def
      signal_reasons_def signal_rate_def signal_paths_def signal_errors_def
      signal_suspicious_def signal_timing_def is_timing_suspicious_def
      requests_per_minute_threshold_def error_rate_threshold_def Let_def)

lemma confidence_eq: "confidence (analyze_single_ip p) = min 1 (signal_sum p)"
  by (simp add: analyze_single_ip_def raw_score_eq Let_def)

lemma risk_rank_known: "known_level l \<Longrightarrow> risk_rank l = Inr (level_rank l)"
  by (auto simp: known_level_def risk_rank_def risk_order_def level_rank_def)

lemma risk_rank_unknown: "\<not> known_level l \<Longrightarrow> risk_rank l = Inl (KeyError l)"
  by (simp add: known_level_def risk_rank_def risk_order_def)

lemma collect_ips_valid:
  "\<forall>r \<in> set rs. known_level (risk_level r) \<Longrightarrow>
   collect_ips m rs = Inr (map result_ip (filter (\<lambda>r. level_rank (risk_level r) \<ge> m) rs))"
  by (induction rs) (simp_all add: risk_rank_known)

lemma export_blocklist_known:
  "valid_results results \<Longrightarrow> known_level l \<Longrightarrow>
   export_blocklist results l =
     Inr (map result_ip (filter (\<lambda>r. level_rank (risk_level r) \<ge> level_rank l) (map snd results)))"
  by (simp add: export_blocklist_def risk_rank_known collect_ips_valid valid_results_def)

lemmas regex_eval =
  ua_matches_def re_match_def leading_def around_def lower_char_def newline_def

subsection \<open>The claims about scoring, risk levels and the blocklist\<close>

text \<open>
  Claim C1. The confidence that \<open>analyze_single_ip\<close> reports is the sum, clamped to at
  most 1.0, of the six signal contributions taken in the order of \<open>signal_sum\<close>:
  0.3 for a rate above 10 requests per minute, 0.3 times the user-agent score, 0.2 for a
  single path with more than 10 requests, 0.2 for an error rate above 0.3, 0.4 for any
  suspicious request, 0.1 for the timing heuristic. The user-agent score that the three
  nested loops compute is \<open>ua_score\<close>: 0.5 when the pattern has no user agent, and
  otherwise the greatest confidence score of a signature one of whose patterns matches
  one of the user agents, ignoring case (0 when no signature matches). The reasons are
  those of the triggered signals, in the same order.
\<close>

theorem confidence_is_clamped_signal_sum:
  "confidence (analyze_single_ip p) = min 1.0 (signal_sum p)
   \<and> reasons (analyze_single_ip p) = signal_reasons p
   \<and> analyze_user_agents (user_agents p) = ua_score (user_agents p)"
  by (simp add: analyze_single_ip_def raw_score_eq Let_def analyze_user_agents_eq)

theorem confidence_is_clamped_signal_sum_witness:
  "ua_score (user_agents curl_hammer) = 0.9
   \<and> signal_sum curl_hammer = 1.17
   \<and> confidence (analyze_single_ip curl_hammer) = 1
   \<and> reasons (analyze_single_ip curl_hammer) =
       [HighRequestRate 50, BotLikeUserAgent, LowPathDiversity, SuspiciousPathRequests 50]"
proof -
  note c1 = confidence_is_clamped_signal_sum [of curl_hammer]
  have "analyze_user_agents (user_agents curl_hammer) = 0.9"
    by (simp add: curl_hammer_def analyze_user_agents_def bot_signatures_def regex_eval)
  with c1 have ua: "ua_score (user_agents curl_hammer) = 0.9"
    by simp
  have s: "signal_sum curl_hammer = 1.17"
    unfolding signal_sum_def ua
    by (simp add: curl_hammer_def signal_rate_def signal_paths_def signal_errors_def
        signal_suspicious_def signal_timing_def)
  have r: "signal_reasons curl_hammer =
      [HighRequestRate 50, BotLikeUserAgent, LowPathDiversity, SuspiciousPathRequests 50]"
    unfolding signal_reasons_def ua
    by (simp add: curl_hammer_def signal_rate_def signal_paths_def signal_errors_def
        signal_suspicious_def signal_timing_def)
  show ?thesis using c1 ua s r by simp
qed

text \<open>
  Claim C2. The risk level is a total function of the confidence and the pattern: the
  result is always one of the four level names, and each name is returned exactly when
  its condition holds and no earlier condition does (CRITICAL, then HIGH, then MEDIUM,
  then LOW). The four conditions exclude each other and cover every input.
\<close>

theorem risk_level_total:
  "calculate_risk_level c p \<in> {''LOW'', ''MEDIUM'', ''HIGH'', ''CRITICAL''}
   \<and> (calculate_risk_level c p = ''CRITICAL'' \<longleftrightarrow> c \<ge> 0.9 \<or> suspicious_requests p > 5)
   \<and> (calculate_risk_level c p = ''HIGH'' \<longleftrightarrow>
        \<not> (c \<ge> 0.9 \<or> suspicious_requests p > 5) \<and> (c \<ge> 0.7 \<or> requests_per_minute p > 20))
   \<and> (calculate_risk_level c p = ''MEDIUM'' \<longleftrightarrow>
        \<not> (c \<ge> 0.9 \<or> suspicious_requests p > 5) \<and> \<not> (c \<ge> 0.7 \<or> requests_per_minute p > 20)
        \<and> (c \<ge> 0.5 \<or> requests_per_minute p > 10))
   \<and> (calculate_risk_level c p = ''LOW'' \<longleftrightarrow>
        \<not> (c \<ge> 0.9 \<or> suspicious_requests p > 5) \<and> \<not> (c \<ge> 0.7 \<or> requests_per_minute p > 20)
        \<and> \<not> (c \<ge> 0.5 \<or> requests_per_minute p > 10))"
  by (simp add: calculate_risk_level_def)

theorem risk_level_total_witness:
  "calculate_risk_level 0.6 quiet_visitor = ''MEDIUM''
   \<and> calculate_risk_level 0.15 quiet_visitor = ''LOW''
   \<and> calculate_risk_level 0.15 curl_hammer = ''CRITICAL''"
  using risk_level_total [of "0.6" quiet_visitor] risk_level_total [of "0.15" quiet_visitor]
    risk_level_total [of "0.15" curl_hammer]
  by (simp add: quiet_visitor_def curl_hammer_def)

text \<open>
  Claim C3. In the result for a pattern, \<open>is_bot\<close> holds if and only if the
  \<open>confidence\<close> field exceeds 0.5. The flag is computed from the sum before it is
  clamped, and clamping at 1.0 does not move a value across 0.5.
\<close>

theorem is_bot_iff_confidence:
  "is_bot (analyze_single_ip p) \<longleftrightarrow> confidence (analyze_single_ip p) > 0.5"
  by (simp add: analyze_single_ip_def raw_score_eq Let_def)

theorem is_bot_iff_confidence_witness:
  "confidence (analyze_single_ip quiet_visitor) = 0.15
   \<and> \<not> is_bot (analyze_single_ip quiet_visitor)"
proof -
  have "confidence (analyze_single_ip quiet_visitor) = 0.15"
    by (simp add: analyze_single_ip_def raw_score_def rate_step_def user_agent_step_def
        path_step_def error_step_def suspicious_step_def timing_step_def
        analyze_user_agents_def is_timing_suspicious_def requests_per_minute_threshold_def
        error_rate_threshold_def quiet_visitor_def Let_def)
  then show ?thesis using is_bot_iff_confidence [of quiet_visitor] by simp
qed

text \<open>
  Claim C4. Confidence is monotonic and bounded. If every signal that triggers for
  \<open>p\<close> also triggers for \<open>p'\<close>, and the user agents are unchanged whenever the
  user-agent signal was already triggered for \<open>p\<close>, then the confidence for \<open>p'\<close>
  is not below the confidence for \<open>p\<close>; and the confidence is at most 1.0. A pattern
  changed so that one more signal triggers, with all other fields unchanged, is such a
  \<open>p'\<close>.
\<close>

theorem confidence_monotonic_bounded:
  assumes more: "\<And>s. triggers s p \<Longrightarrow> triggers s p'"
    and same: "triggers UserAgentSignal p \<Longrightarrow> user_agents p' = user_agents p"
  shows "confidence (analyze_single_ip p) \<le> confidence (analyze_single_ip p')
         \<and> confidence (analyze_single_ip p') \<le> 1.0"
proof -
  have ua: "ua_score (user_agents p) \<le> ua_score (user_agents p')"
  proof (cases "triggers UserAgentSignal p")
    case True
    then show ?thesis using same by simp
  next
    case False
    then have "ua_score (user_agents p) \<le> 0" by simp
    then show ?thesis using ua_score_nonneg [of "user_agents p'"] by linarith
  qed
  have r: "signal_rate p \<Longrightarrow> signal_rate p'" using more [of RateSignal] by simp
  have q: "signal_paths p \<Longrightarrow> signal_paths p'" using more [of PathSignal] by simp
  have e: "signal_errors p \<Longrightarrow> signal_errors p'" using more [of ErrorSignal] by simp
  have u: "signal_suspicious p \<Longrightarrow> signal_suspicious p'" using more [of SuspiciousSignal] by simp
  have t: "signal_timing p \<Longrightarrow> signal_timing p'" using more [of TimingSignal] by simp
  have "(if signal_rate p then 0.3 else 0) \<le> (if signal_rate p' then 0.3 else (0::real))"
    using r by simp
  moreover have "(if signal_paths p then 0.2 else 0) \<le> (if signal_paths p' then 0.2 else (0::real))"
    using q by simp
  moreover have "(if signal_errors p then 0.2 else 0) \<le> (if signal_errors p' then 0.2 else (0::real))"
    using e by simp
  moreover have "(if signal_suspicious p then 0.4 else 0) \<le> (if signal_suspicious p' then 0.4 else (0::real))"
    using u by simp
  moreover have "(if signal_timing p then 0.1 else 0) \<le> (if signal_timing p' then 0.1 else (0::real))"
    using t by simp
  ultimately have "signal_sum p \<le> signal_sum p'"
    unfolding signal_sum_def using ua by linarith
  then show ?thesis by (simp add: confidence_eq min_le_iff_disj)
qed

theorem confidence_monotonic_bounded_witness:
  "confidence (analyze_single_ip quiet_visitor)
     \<le> confidence (analyze_single_ip (quiet_visitor\<lparr>suspicious_requests := 1\<rparr>))
   \<and> confidence (analyze_single_ip (quiet_visitor\<lparr>suspicious_requests := 1\<rparr>)) \<le> 1.0"
proof -
  have more: "\<And>s. triggers s quiet_visitor \<Longrightarrow> triggers s (quiet_visitor\<lparr>suspicious_requests := 1\<rparr>)"
  proof -
    fix s
    assume "triggers s quiet_visitor"
    then show "triggers s (quiet_visitor\<lparr>suspicious_requests := 1\<rparr>)"
      by (cases s)
        (simp_all add: quiet_visitor_def signal_rate_def signal_paths_def signal_errors_def
          signal_suspicious_def signal_timing_def)
  qed
  have same: "triggers UserAgentSignal quiet_visitor \<Longrightarrow>
      user_agents (quiet_visitor\<lparr>suspicious_requests := 1\<rparr>) = user_agents quiet_visitor"
    by simp
  show ?thesis by (rule confidence_monotonic_bounded [OF more same])
qed

text \<open>
  Claim C6. When every verdict carries one of the four level names,
  \<open>export_blocklist\<close> with a level name returns the addresses of exactly the verdicts
  whose level ranks at least as high as the given level, in the order LOW, MEDIUM, HIGH,
  CRITICAL; with LOW it returns the address of every verdict, and what it returns for
  CRITICAL is contained in what it returns for HIGH.
\<close>

theorem export_blocklist_by_rank:
  assumes "valid_results results"
  shows "(known_level min_risk_level \<longrightarrow>
            export_blocklist results min_risk_level =
              Inr (map result_ip (filter (\<lambda>r. level_rank (risk_level r) \<ge> level_rank min_risk_level)
                     (map snd results))))
         \<and> export_blocklist results ''LOW'' = Inr (map result_ip (map snd results))
         \<and> (\<exists>cs hs. export_blocklist results ''CRITICAL'' = Inr cs
                \<and> export_blocklist results ''HIGH'' = Inr hs \<and> set cs \<subseteq> set hs)"
proof -
  have low: "known_level ''LOW''" and high: "known_level ''HIGH''"
    and crit: "known_level ''CRITICAL''"
    by (simp_all add: known_level_def)
  have "export_blocklist results ''LOW'' = Inr (map result_ip (map snd results))"
    using export_blocklist_known [OF assms low] by (simp add: level_rank_def)
  moreover have "\<exists>cs hs. export_blocklist results ''CRITICAL'' = Inr cs
      \<and> export_blocklist results ''HIGH'' = Inr hs \<and> set cs \<subseteq> set hs"
    using export_blocklist_known [OF assms high] export_blocklist_known [OF assms crit]
    by (auto simp: level_rank_def)
  ultimately show ?thesis using export_blocklist_known [OF assms] by simp
qed

theorem export_blocklist_by_rank_witness:
  "valid_results sample_results
   \<and> export_blocklist sample_results ''HIGH'' = Inr [''10.0.0.1'', ''10.0.0.3'']
   \<and> export_blocklist sample_results ''LOW'' = Inr [''10.0.0.1'', ''10.0.0.2'', ''10.0.0.3'']"
proof -
  have v: "valid_results sample_results"
    by (simp add: valid_results_def sample_results_def known_level_def)
  show ?thesis
    using v export_blocklist_by_rank [OF v, of "''HIGH''"]
    by (simp add: known_level_def level_rank_def sample_results_def)
qed

text \<open>
  Claim C7, as the specification states it, fails: the error of an unknown level is not an
  \<^verbatim>\<open>InvalidRiskLevel\<close>. For the valid results of the example and the level
  \<^verbatim>\<open>SEVERE\<close>, which is none of the four names, the call ends in the built-in
  \<^verbatim>\<open>KeyError\<close> that the lookup \<^verbatim>\<open>risk_order[min_risk_level]\<close> raises.
\<close>

theorem export_blocklist_raises_key_error:
  "valid_results sample_results
   \<and> \<not> known_level ''SEVERE''
   \<and> export_blocklist sample_results ''SEVERE'' = Inl (KeyError ''SEVERE'')
   \<and> \<not> fails_with ''InvalidRiskLevel'' (export_blocklist sample_results ''SEVERE'')"
  by (simp add: valid_results_def sample_results_def known_level_def export_blocklist_def
      risk_rank_def risk_order_def fails_with_def)

text \<open>
  Claim C7, amended. When every verdict carries one of the four level names,
  \<open>export_blocklist\<close> fails if and only if the requested level is not one of the four
  names; the failure is the built-in \<^verbatim>\<open>KeyError\<close> carrying that name, and no list is
  returned. The call leaves the detection results as they were.
\<close>

theorem export_blocklist_fails_iff_unknown_level:
  assumes "valid_results results"
  shows "((\<exists>e. export_blocklist results min_risk_level = Inl e) \<longleftrightarrow> \<not> known_level min_risk_level)
         \<and> (fails_with ''KeyError'' (export_blocklist results min_risk_level)
              \<longleftrightarrow> \<not> known_level min_risk_level)
         \<and> (\<not> known_level min_risk_level \<longrightarrow>
              export_blocklist results min_risk_level = Inl (KeyError min_risk_level))
         \<and> export_blocklist_call results min_risk_level =
              (results, export_blocklist results min_risk_level)"
proof (cases "known_level min_risk_level")
  case True
  then show ?thesis
    using export_blocklist_known [OF assms True]
    by (simp add: fails_with_def export_blocklist_call_def)
next
  case False
  then show ?thesis
    by (simp add: export_blocklist_def risk_rank_unknown fails_with_def export_blocklist_call_def)
qed

theorem export_blocklist_fails_iff_unknown_level_witness:
  "valid_results sample_results
   \<and> export_blocklist sample_results ''SEVERE'' = Inl (KeyError ''SEVERE'')
   \<and> fails_with ''KeyError'' (export_blocklist sample_results ''SEVERE'')
   \<and> (\<nexists>e. export_blocklist sample_results ''MEDIUM'' = Inl e)
   \<and> fst (export_blocklist_call sample_results ''SEVERE'') = sample_results"
proof -
  have v: "valid_results sample_results"
    by (simp add: valid_results_def sample_results_def known_level_def)
  show ?thesis
    using v export_blocklist_fails_iff_unknown_level [OF v, of "''SEVERE''"]
      export_blocklist_fails_iff_unknown_level [OF v, of "''MEDIUM''"]
    by (simp add: known_level_def fails_with_def)
qed

section \<open>Properties of the log parser\<close>

subsection \<open>No format parser raises\<close>

lemma rmatch_groups:
  "st' \<in> set (rmatch ic r st) \<Longrightarrow>
   must_groups r \<union> fst ` set (snd st) \<subseteq> fst ` set (snd st')"
proof (induction ic r st arbitrary: st' rule: rmatch.induct)
  case (1 ic a s cs)
  then show ?case by (auto split: list.splits if_splits)
next
  case (2 ic st)
  then show ?case by simp
next
  case (3 ic s cs)
  then show ?case by (auto split: if_splits)
next
  case (4 ic r1 r2 st)
  from "4.prems" obtain st1 where a: "st1 \<in> set (rmatch ic r1 st)"
    and b: "st' \<in> set (rmatch ic r2 st1)" by auto
  have "must_groups r1 \<union> fst ` set (snd st) \<subseteq> fst ` set (snd st1)"
    by (rule "4.IH"(1) [OF a])
  moreover have "must_groups r2 \<union> fst ` set (snd st1) \<subseteq> fst ` set (snd st')"
    by (rule "4.IH"(2) [OF a b])
  ultimately show ?case by (simp only: must_groups.simps) blast
next
  case (5 ic r1 r2 st)
  from "5.prems" consider "st' \<in> set (rmatch ic r1 st)" | "st' \<in> set (rmatch ic r2 st)"
    by auto
  then show ?case
  proof cases
    case 1
    have "must_groups r1 \<union> fst ` set (snd st) \<subseteq> fst ` set (snd st')"
      by (rule "5.IH"(1) [OF 1])
    then show ?thesis by (simp only: must_groups.simps) blast
  next
    case 2
    have "must_groups r2 \<union> fst ` set (snd st) \<subseteq> fst ` set (snd st')"
      by (rule "5.IH"(2) [OF 2])
    then show ?thesis by (simp only: must_groups.simps) blast
  qed
next
  case (6 ic r s cs)
  from "6.prems" consider "st' = (s, cs)"
    | st1 where "st1 \<in> set (rmatch ic r (s, cs))" "length (fst st1) < length s"
        "st' \<in> set (rmatch ic (Star r) st1)"
    by (auto split: if_splits)
  then show ?case
  proof cases
    case 1
    then show ?thesis by simp
  next
    case 2
    have "must_groups r \<union> fst ` set (snd (s, cs)) \<subseteq> fst ` set (snd st1)"
      by (rule "6.IH"(1) [OF 2(1)])
    moreover have "must_groups (Star r) \<union> fst ` set (snd st1) \<subseteq> fst ` set (snd st')"
      by (rule "6.IH"(2) [OF 2(1) 2(2) 2(3)])
    ultimately show ?thesis by (simp only: must_groups.simps) blast
  qed
next
  case (7 ic n r s cs)
  from "7.prems" obtain st1 where a: "st1 \<in> set (rmatch ic r (s, cs))"
    and b: "st' = (fst st1, (n, take (length s - length (fst st1)) s) # snd st1)" by auto
  have "must_groups r \<union> fst ` set (snd (s, cs)) \<subseteq> fst ` set (snd st1)"
    by (rule "7.IH" [OF a])
  then show ?case unfolding b by (simp only: must_groups.simps snd_conv list.set image_insert fst_conv) blast
qed

lemma re_match_group:
  assumes "re_match ic r s = Some m" and "n \<in> must_groups r"
  shows "\<exists>g. group m n = Inr g"
proof -
  from assms(1) obtain st where "st \<in> set (rmatch ic r (s, []))" and "m = snd st"
    by (auto simp: re_match_def split: list.splits)
  with rmatch_groups [of st ic r "(s, [])"] assms(2) have "n \<in> fst ` set m" by auto
  then have "map_of m n \<noteq> None" by (simp add: map_of_eq_None_iff)
  then show ?thesis by (auto simp: group_def)
qed

lemma must_groups_seqs: "must_groups (seqs rs) = (\<Union>r \<in> set rs. must_groups r)"
  by (induction rs) (simp_all add: seqs_def)

lemma must_groups_Plus: "must_groups (Plus r) = must_groups r"
  by (simp add: Plus_def)

lemmas pattern_parts = nonspaces_def spaces_def digits_def unquoted_def quote_def

lemma must_groups_common: "must_groups common_log_pattern = {1, 2, 3, 4, 5, 6}"
  by (auto simp: common_log_pattern_def must_groups_seqs must_groups_Plus pattern_parts)

lemma must_groups_combined: "must_groups combined_log_pattern = {1, 2, 3, 4, 5, 6, 7, 8}"
  by (auto simp: combined_log_pattern_def must_groups_seqs must_groups_Plus pattern_parts)

lemma must_groups_custom: "must_groups custom_log_pattern = {1, 2, 3, 4, 5, 6, 7, 8, 9, 10}"
  by (auto simp: custom_log_pattern_def must_groups_seqs must_groups_Plus pattern_parts)

lemma benign_bind:
  "benign a \<Longrightarrow> (\<And>x. a = Inr x \<Longrightarrow> benign (f x)) \<Longrightarrow> benign (bind_exn a f)"
  by (cases a) (simp_all add: benign_def bind_exn_def)

lemma benign_py_int: "benign (py_int s)"
  by (simp add: benign_def py_int_def)

lemma benign_size_of: "benign (size_of s)"
  by (simp add: size_of_def benign_py_int) (simp add: benign_def)

lemma benign_timestamp:
  "benign (case t of None \<Rightarrow> Inr None | Some d \<Rightarrow> Inr (f d))"
  by (cases t) (simp_all add: benign_def)

lemma except_benign: "benign r \<Longrightarrow> \<exists>x. except_value_index r = Inr x"
  by (cases r) (auto simp: benign_def except_value_index_def split: exn.splits)

lemma g_common:
  assumes "re_match False common_log_pattern line = Some m"
  shows "n \<in> {1, 2, 3, 4, 5, 6} \<Longrightarrow> benign (group m n)"
  using re_match_group [OF assms, of n] unfolding must_groups_common by (auto simp: benign_def)

lemma g_combined:
  assumes "re_match False combined_log_pattern line = Some m"
  shows "n \<in> {1, 2, 3, 4, 5, 6, 7, 8} \<Longrightarrow> benign (group m n)"
  using re_match_group [OF assms, of n] unfolding must_groups_combined by (auto simp: benign_def)

lemma g_custom:
  assumes "re_match False custom_log_pattern line = Some m"
  shows "n \<in> {1, 2, 3, 4, 5, 6, 7, 8, 9, 10} \<Longrightarrow> benign (group m n)"
  using re_match_group [OF assms, of n] unfolding must_groups_custom by (auto simp: benign_def)

lemma parse_common_total: "\<exists>x. parse_common_format strptime line = Inr x"
proof (cases "re_match False common_log_pattern line")
  case None
  then show ?thesis by (simp add: parse_common_format_def)
next
  case (Some m)
  note g = g_common [OF Some]
  show ?thesis
    unfolding parse_common_format_def Some option.case
    by (intro except_benign benign_bind benign_py_int benign_size_of benign_timestamp g) simp_all
qed

lemma parse_combined_total: "\<exists>x. parse_combined_format strptime line = Inr x"
proof (cases "re_match False combined_log_pattern line")
  case None
  then show ?thesis by (simp add: parse_combined_format_def)
next
  case (Some m)
  note g = g_combined [OF Some]
  show ?thesis
    unfolding parse_combined_format_def Some option.case
    by (intro except_benign benign_bind benign_py_int benign_size_of benign_timestamp g) simp_all
qed

lemma parse_custom_total: "\<exists>x. parse_custom_format strptime line = Inr x"
proof (cases "re_match False custom_log_pattern line")
  case None
  then show ?thesis by (simp add: parse_custom_format_def)
next
  case (Some m)
  note g = g_custom [OF Some]
  show ?thesis
    unfolding parse_custom_format_def Some option.case
    by (intro except_benign benign_bind benign_py_int benign_size_of benign_timestamp g) simp_all
qed

subsection \<open>Lines and files\<close>

lemma strip_hash: "startswith raw ''#'' \<Longrightarrow> startswith (strip raw) ''#''"
proof -
  assume "startswith raw ''#''"
  then obtain rest where raw: "raw = CHR ''#'' # rest"
    by (cases raw) (simp_all add: startswith_def)
  have "\<not> is_space CHR ''#''" by (simp add: is_space_def)
  then have l: "lstrip raw = raw" by (simp add: lstrip_def raw)
  have "rev raw = rev rest @ [CHR ''#'']" by (simp add: raw)
  then have "\<exists>ys. dropWhile is_space (rev raw) = ys @ [CHR ''#'']"
    using \<open>\<not> is_space CHR ''#''\<close> by (simp add: dropWhile_append)
  then obtain ys where "dropWhile is_space (rev raw) = ys @ [CHR ''#'']" ..
  then have "strip raw = CHR ''#'' # rev ys" by (simp add: strip_def rstrip_def l)
  then show ?thesis by (simp add: startswith_def)
qed

lemma parse_log_line_eq:
  "parse_log_line strptime raw =
     Inr (if skipped raw then None
          else first_entry (map (\<lambda>parse. parse strptime (strip raw)) grammars))"
proof -
  obtain a where a: "parse_custom_format strptime (strip raw) = Inr a"
    using parse_custom_total by blast
  obtain b where b: "parse_combined_format strptime (strip raw) = Inr b"
    using parse_combined_total by blast
  obtain c where c: "parse_common_format strptime (strip raw) = Inr c"
    using parse_common_total by blast
  show ?thesis
    by (cases a; cases b; cases c)
      (simp_all add: parse_log_line_def skipped_def grammars_def a b c bind_exn_def Let_def)
qed

lemma parse_lines_eq:
  "parse_lines strptime lines acc = Inr (acc @ kept_entries strptime lines)"
proof (induction lines arbitrary: acc)
  case Nil
  show ?case by (simp add: kept_entries_def map_filter_simps)
next
  case (Cons l lines)
  obtain r where r: "parse_log_line strptime l = Inr r"
    unfolding parse_log_line_eq by blast
  show ?case
    by (cases r) (simp_all add: r bind_exn_def Cons.IH kept_entries_def map_filter_simps line_entry_def)
qed

text \<open>
  Claim C8. \<^verbatim>\<open>parse_log_line\<close> never raises and returns the entry of the first of
  the three grammars, tried in the order custom, combined, common, that builds one from
  the stripped line, and no entry when none does. A line that is empty once stripped or
  that starts with \<^verbatim>\<open>#\<close> is skipped: it gives no entry, like a line that no grammar
  accepts.
\<close>

theorem parse_line_first_grammar:
  "parse_log_line strptime raw =
     Inr (if skipped raw then None
          else first_entry (map (\<lambda>parse. parse strptime (strip raw)) grammars))
   \<and> (strip raw = [] \<or> startswith raw ''#'' \<longrightarrow> skipped raw)"
  using strip_hash [of raw] by (auto simp: parse_log_line_eq skipped_def)

theorem parse_line_first_grammar_witness:
  "parse_log_line sample_strptime custom_line =
     Inr (Some (sample_entry\<lparr>country := ''US'', user_agent := ''curl/8'', response_time := 12\<rparr>))
   \<and> parse_log_line sample_strptime agent_line =
     Inr (Some (sample_entry\<lparr>user_agent := ''Mozilla/5.0''\<rparr>))
   \<and> parse_common_format sample_strptime agent_line = Inr (Some sample_entry)
   \<and> parse_log_line sample_strptime common_line =
     Inr (Some (sample_entry\<lparr>status_code := 404, response_size := 0\<rparr>))
   \<and> parse_log_line sample_strptime ''# comment'' = Inr None
   \<and> parse_log_line sample_strptime [CHR '' '', newline] = Inr None"
proof -
  have s: "\<not> skipped custom_line" "\<not> skipped agent_line" "\<not> skipped common_line"
    "skipped ''# comment''" "skipped [CHR '' '', newline]"
    by code_simp+
  have a: "first_entry (map (\<lambda>parse. parse sample_strptime (strip custom_line)) grammars) =
      Some (sample_entry\<lparr>country := ''US'', user_agent := ''curl/8'', response_time := 12\<rparr>)"
    by code_simp
  have b: "first_entry (map (\<lambda>parse. parse sample_strptime (strip agent_line)) grammars) =
      Some (sample_entry\<lparr>user_agent := ''Mozilla/5.0''\<rparr>)"
    by code_simp
  have c: "first_entry (map (\<lambda>parse. parse sample_strptime (strip common_line)) grammars) =
      Some (sample_entry\<lparr>status_code := 404, response_size := 0\<rparr>)"
    by code_simp
  have d: "parse_common_format sample_strptime agent_line = Inr (Some sample_entry)"
    by code_simp
  show ?thesis
    using parse_line_first_grammar [of sample_strptime custom_line]
      parse_line_first_grammar [of sample_strptime agent_line]
      parse_line_first_grammar [of sample_strptime common_line]
      parse_line_first_grammar [of sample_strptime "''# comment''"]
      parse_line_first_grammar [of sample_strptime "[CHR '' '', newline]"]
    by (simp only: s a b c d if_True if_False simp_thms)
qed

text \<open>
  Claim C9. \<^verbatim>\<open>parse_log_line\<close> is total: on every string, with any behaviour of
  \<open>strptime\<close> that raises nothing but \<^verbatim>\<open>ValueError\<close>, it returns an entry or no entry
  and raises nothing. When the file can be read, \<^verbatim>\<open>parse_log_file\<close> returns the entries
  of the lines that parse, in the order of the lines, and drops every other line.
\<close>

theorem parse_line_total_file_in_order:
  "(\<exists>r. parse_log_line strptime raw = Inr r)
   \<and> (fs file_path = Some lines \<longrightarrow>
        parse_log_file strptime fs file_path = Inr (kept_entries strptime lines))"
  by (simp add: parse_log_line_eq parse_log_file_def parse_lines_eq)

theorem parse_line_total_file_in_order_witness:
  "parse_log_line sample_strptime truncated_line = Inr None
   \<and> parse_log_line sample_strptime unknown_time_line = Inr None
   \<and> parse_log_file sample_strptime sample_fs ''access.log'' =
       Inr [sample_entry\<lparr>country := ''US'', user_agent := ''curl/8'', response_time := 12\<rparr>,
            sample_entry\<lparr>status_code := 404, response_size := 0\<rparr>]"
proof -
  have f: "sample_fs ''access.log'' = Some sample_file"
    by (simp add: sample_fs_def)
  have k: "kept_entries sample_strptime sample_file =
       [sample_entry\<lparr>country := ''US'', user_agent := ''curl/8'', response_time := 12\<rparr>,
        sample_entry\<lparr>status_code := 404, response_size := 0\<rparr>]"
    by code_simp
  have t: "parse_log_line sample_strptime truncated_line = Inr None"
    "parse_log_line sample_strptime unknown_time_line = Inr None"
    by code_simp+
  show ?thesis
    using parse_line_total_file_in_order [of sample_strptime truncated_line sample_fs "''access.log''" sample_file]
    by (simp only: f k t simp_thms)
qed

section \<open>The user agent that the parser stores\<close>





































section \<open>Properties of the DDoS window analyzer\<close>

lemma key_iff:
  fixes t w k :: int
  assumes "0 < w" and "w dvd k"
  shows "(t div w) * w = k \<longleftrightarrow> k \<le> t \<and> t < k + w"
proof
  assume a: "(t div w) * w = k"
  then have a': "w * (t div w) = k" by (simp add: mult.commute)
  have e: "w * (t div w) + t mod w = t" by simp
  have m: "0 \<le> t mod w" "t mod w < w" using assms(1) by simp_all
  from a' e m show "k \<le> t \<and> t < k + w" by linarith
next
  assume b: "k \<le> t \<and> t < k + w"
  from assms(2) obtain q where q: "k = w * q" by (auto simp: dvd_def)
  have "t = (t - k) + w * q" by (simp add: q)
  then have "t div w = q + (t - k) div w"
    using assms(1) by (metis div_mult_self2 less_irrefl add.commute)
  moreover have "(t - k) div w = 0" using b by (simp add: div_pos_pos_trivial)
  ultimately show "(t div w) * w = k" by (simp add: q)
qed

lemma add_entry_keys:
  "map fst (add_entry k e bs) = (if k \<in> set (map fst bs) then map fst bs else map fst bs @ [k])"
proof (induction bs)
  case Nil
  show ?case by simp
next
  case (Cons b bs)
  obtain k' es where b: "b = (k', es)" by (cases b)
  show ?case
  proof (cases "k' = k")
    case True
    then show ?thesis by (simp add: b)
  next
    case False
    then show ?thesis using Cons.IH by (simp add: b)
  qed
qed

lemma add_entry_distinct:
  "distinct (map fst bs) \<Longrightarrow> distinct (map fst (add_entry k e bs))"
  by (simp add: add_entry_keys)

lemma map_of_add_entry:
  "map_of (add_entry k e bs) =
     (map_of bs)(k \<mapsto> (case map_of bs k of None \<Rightarrow> [e] | Some es \<Rightarrow> es @ [e]))"
proof (induction bs)
  case Nil
  show ?case by simp
next
  case (Cons b bs)
  obtain k' es where b: "b = (k', es)" by (cases b)
  show ?case
  proof (cases "k' = k")
    case True
    then show ?thesis by (auto simp: b fun_eq_iff)
  next
    case False
    then show ?thesis by (auto simp: b Cons.IH fun_eq_iff)
  qed
qed

lemma group_keys_distinct:
  "distinct (map fst (foldl (\<lambda>bs e. add_entry (key e) e bs) [] entries))"
  by (induction entries rule: rev_induct) (simp_all add: add_entry_distinct)

lemma group_lookup:
  "map_of (foldl (\<lambda>bs e. add_entry (key e) e bs) [] entries) k =
     (if filter (\<lambda>e. key e = k) entries = [] then None
      else Some (filter (\<lambda>e. key e = k) entries))"
proof (induction entries arbitrary: k rule: rev_induct)
  case Nil
  show ?case by simp
next
  case (snoc e entries)
  show ?case by (simp add: map_of_add_entry snoc.IH)
qed

lemma count_at_key:
  "distinct (map fst bs) \<Longrightarrow>
   length (filter (\<lambda>b. fst b = k \<and> Q (snd b)) bs) =
     (case map_of bs k of None \<Rightarrow> 0 | Some es \<Rightarrow> if Q es then 1 else 0)"
proof (induction bs)
  case Nil
  show ?case by simp
next
  case (Cons b bs)
  obtain k' es where b: "b = (k', es)" by (cases b)
  show ?case
  proof (cases "k' = k")
    case True
    with Cons.prems b have "k \<notin> fst ` set bs" by auto
    then have "filter (\<lambda>b. fst b = k \<and> Q (snd b)) bs = []"
      by (auto simp: filter_empty_conv)
    with True show ?thesis by (simp add: b)
  next
    case False
    with Cons show ?thesis by (simp add: b)
  qed
qed

lemma window_start_iff:
  assumes "0 < time_window_minutes cfg" and "window_seconds cfg dvd k"
  shows "window_start cfg clock e = k \<longleftrightarrow> in_window cfg clock k e"
proof -
  have "0 < window_seconds cfg" using assms(1) by (simp add: window_seconds_def)
  from key_iff [OF this assms(2)] show ?thesis
    by (simp add: window_start_def in_window_def)
qed

lemma alerts_at_count:
  assumes "0 < time_window_minutes cfg" and "window_seconds cfg dvd k"
  shows "length (alerts_at k (detect_ddos cfg clock entries)) =
     (if window_entries cfg clock k entries \<noteq> []
         \<and> is_attack cfg (window_entries cfg clock k entries) then 1 else 0)"
proof -
  let ?G = "group_windows cfg clock entries"
  have same: "filter (\<lambda>e. window_start cfg clock e = k) entries = window_entries cfg clock k entries"
    by (simp add: window_start_iff [OF assms] window_entries_def)
  have "length (alerts_at k (detect_ddos cfg clock entries)) =
      length (filter (\<lambda>b. fst b = k \<and> is_attack cfg (snd b)) ?G)"
    by (simp add: alerts_at_def detect_ddos_def filter_map comp_def make_alert_def conj_commute)
  also have "\<dots> = (case map_of ?G k of None \<Rightarrow> 0
      | Some es \<Rightarrow> if is_attack cfg es then 1 else 0)"
    unfolding group_windows_def by (rule count_at_key [OF group_keys_distinct])
  also have "\<dots> = (if window_entries cfg clock k entries \<noteq> []
         \<and> is_attack cfg (window_entries cfg clock k entries) then 1 else 0)"
    by (simp add: group_windows_def group_lookup same)
  finally show ?thesis .
qed

lemma is_attack_default:
  "is_attack DDOS_DETECTION es \<longleftrightarrow> crosses_thresholds es"
proof -
  have "length (remdups (map entry_ip es)) = card (entry_ip ` set es)"
    by (simp add: card_set [symmetric])
  then show ?thesis
    by (simp add: is_attack_def crosses_thresholds_def DDOS_DETECTION_def window_request_count_def
        window_unique_ips_def window_error_rate_def window_error_count_def distinct_ips_def
        error_responses_def)
qed

lemma default_window: "window_seconds DDOS_DETECTION = 300" "0 < time_window_minutes DDOS_DETECTION"
  by (simp_all add: window_seconds_def DDOS_DETECTION_def)

lemma alert_at_window_start:
  assumes "a \<in> set (detect_ddos cfg clock entries)"
  shows "window_seconds cfg dvd alert_timestamp a"
proof -
  from assms obtain b where b: "b \<in> set (group_windows cfg clock entries)"
    and a: "a = make_alert cfg b"
    by (auto simp: detect_ddos_def)
  obtain k es where kes: "b = (k, es)" by (cases b)
  have "map_of (group_windows cfg clock entries) k \<noteq> None"
    using b kes by (simp add: map_of_eq_None_iff) force
  then have "filter (\<lambda>e. window_start cfg clock e = k) entries \<noteq> []"
    by (simp add: group_windows_def group_lookup split: if_splits)
  then obtain e where "window_start cfg clock e = k"
    by (auto simp: filter_empty_conv)
  then have "window_seconds cfg dvd k" by (auto simp: window_start_def)
  then show ?thesis by (simp add: a kes make_alert_def)
qed

lemma burst_length: "length (burst_from addresses time) = 100 * length addresses"
  by (induction addresses) (simp_all add: burst_from_def)

lemma burst_errors: "length (error_responses (burst_from addresses time)) = 60 * length addresses"
  by (induction addresses) (simp_all add: burst_from_def error_responses_def hit_def)

lemma burst_ips: "entry_ip ` set (burst_from addresses time) = set addresses"
  by (induction addresses) (auto simp: burst_from_def hit_def)

lemma burst_times: "e \<in> set (burst_from addresses time) \<Longrightarrow> timestamp e = time"
  by (induction addresses) (auto simp: burst_from_def hit_def)

lemma sample_windows:
  "window_entries DDOS_DETECTION sample_clock 50100 sample_traffic = burst_from attackers sample_time"
  "window_entries DDOS_DETECTION sample_clock (50100 + 300) sample_traffic =
     replicate 400 (hit ''10.0.1.1'' 200 calm_time)"
proof -
  have t1: "sample_clock sample_time = 50136"
    by (simp add: sample_clock_def sample_time_def)
  have t2: "sample_clock calm_time = 50436"
    by (simp add: sample_clock_def calm_time_def sample_time_def)
  have b1: "\<And>e. e \<in> set (burst_from attackers sample_time) \<Longrightarrow>
      in_window DDOS_DETECTION sample_clock 50100 e
      \<and> \<not> in_window DDOS_DETECTION sample_clock (50100 + 300) e"
    using burst_times [of _ attackers sample_time]
    by (simp add: in_window_def default_window t1)
  have c1: "\<not> in_window DDOS_DETECTION sample_clock 50100 (hit ''10.0.1.1'' 200 calm_time)"
    "in_window DDOS_DETECTION sample_clock (50100 + 300) (hit ''10.0.1.1'' 200 calm_time)"
    by (simp_all add: in_window_def default_window t2 hit_def)
  have "filter (in_window DDOS_DETECTION sample_clock 50100) (burst_from attackers sample_time) =
      burst_from attackers sample_time"
    using b1 by (simp add: filter_id_conv)
  then show "window_entries DDOS_DETECTION sample_clock 50100 sample_traffic =
      burst_from attackers sample_time"
    using c1(1) by (simp add: window_entries_def sample_traffic_def)
  have "filter (in_window DDOS_DETECTION sample_clock (50100 + 300))
      (burst_from attackers sample_time) = []"
    using b1 by (simp add: filter_empty_conv)
  then show "window_entries DDOS_DETECTION sample_clock (50100 + 300) sample_traffic =
      replicate 400 (hit ''10.0.1.1'' 200 calm_time)"
    using c1(2) by (simp add: window_entries_def sample_traffic_def)
qed

text \<open>
  Claim C5. With the default settings the scan over tumbling windows of five minutes
  emits exactly one alert for the window that starts at \<open>k\<close> when the window holds at
  least 1000 requests, its error rate is at least 0.5 and its fraction of distinct
  addresses is below 0.1, and no alert for it otherwise; this holds for the entries in any
  order, so also in chronological order. Every alert belongs to a window start. In
  particular a window with 1200 requests from 12 addresses, 720 of them errors, gets
  exactly one alert, and the next window with 400 requests gets none.
\<close>

theorem ddos_alert_iff_thresholds:
  assumes "300 dvd k"
  shows "length (alerts_at k (detect_ddos DDOS_DETECTION clock entries)) =
           (if crosses_thresholds (window_entries DDOS_DETECTION clock k entries) then 1 else 0)
       \<and> (\<forall>a \<in> set (detect_ddos DDOS_DETECTION clock entries). 300 dvd alert_timestamp a)
       \<and> (length (window_entries DDOS_DETECTION clock k entries) = 1200
            \<and> distinct_ips (window_entries DDOS_DETECTION clock k entries) = 12
            \<and> length (error_responses (window_entries DDOS_DETECTION clock k entries)) = 720
            \<and> length (window_entries DDOS_DETECTION clock (k + 300) entries) = 400
          \<longrightarrow> length (alerts_at k (detect_ddos DDOS_DETECTION clock entries)) = 1
            \<and> alerts_at (k + 300) (detect_ddos DDOS_DETECTION clock entries) = [])"
proof -
  have count: "\<And>j. 300 dvd j \<Longrightarrow>
      length (alerts_at j (detect_ddos DDOS_DETECTION clock entries)) =
        (if crosses_thresholds (window_entries DDOS_DETECTION clock j entries) then 1 else 0)"
  proof -
    fix j :: int
    assume "300 dvd j"
    then have "window_seconds DDOS_DETECTION dvd j" by (simp add: default_window)
    from alerts_at_count [OF default_window(2) this, of clock entries]
    show "length (alerts_at j (detect_ddos DDOS_DETECTION clock entries)) =
        (if crosses_thresholds (window_entries DDOS_DETECTION clock j entries) then 1 else 0)"
      by (auto simp: is_attack_default crosses_thresholds_def)
  qed
  have starts: "\<forall>a \<in> set (detect_ddos DDOS_DETECTION clock entries). 300 dvd alert_timestamp a"
    using alert_at_window_start [of _ DDOS_DETECTION clock entries] by (simp add: default_window)
  have next_window: "300 dvd k + 300" using assms by simp
  have scenario: "length (window_entries DDOS_DETECTION clock k entries) = 1200
            \<and> distinct_ips (window_entries DDOS_DETECTION clock k entries) = 12
            \<and> length (error_responses (window_entries DDOS_DETECTION clock k entries)) = 720
            \<and> length (window_entries DDOS_DETECTION clock (k + 300) entries) = 400
          \<longrightarrow> length (alerts_at k (detect_ddos DDOS_DETECTION clock entries)) = 1
            \<and> alerts_at (k + 300) (detect_ddos DDOS_DETECTION clock entries) = []"
  proof (intro impI, elim conjE)
    assume n: "length (window_entries DDOS_DETECTION clock k entries) = 1200"
      and d: "distinct_ips (window_entries DDOS_DETECTION clock k entries) = 12"
      and e: "length (error_responses (window_entries DDOS_DETECTION clock k entries)) = 720"
      and m: "length (window_entries DDOS_DETECTION clock (k + 300) entries) = 400"
    have "crosses_thresholds (window_entries DDOS_DETECTION clock k entries)"
      by (simp add: crosses_thresholds_def n d e)
    moreover have "\<not> crosses_thresholds (window_entries DDOS_DETECTION clock (k + 300) entries)"
      by (simp add: crosses_thresholds_def m)
    ultimately show "length (alerts_at k (detect_ddos DDOS_DETECTION clock entries)) = 1
        \<and> alerts_at (k + 300) (detect_ddos DDOS_DETECTION clock entries) = []"
      using count [OF assms] count [OF next_window] by simp
  qed
  from count [OF assms] starts scenario show ?thesis by blast
qed

theorem ddos_alert_iff_thresholds_witness:
  "300 dvd (50100 :: int)
   \<and> length (window_entries DDOS_DETECTION sample_clock 50100 sample_traffic) = 1200
   \<and> distinct_ips (window_entries DDOS_DETECTION sample_clock 50100 sample_traffic) = 12
   \<and> length (error_responses (window_entries DDOS_DETECTION sample_clock 50100 sample_traffic)) = 720
   \<and> length (window_entries DDOS_DETECTION sample_clock (50100 + 300) sample_traffic) = 400
   \<and> length (alerts_at 50100 (detect_ddos DDOS_DETECTION sample_clock sample_traffic)) = 1
   \<and> alerts_at (50100 + 300) (detect_ddos DDOS_DETECTION sample_clock sample_traffic) = []"
proof -
  have d: "(300 :: int) dvd 50100" by simp
  have n: "length (window_entries DDOS_DETECTION sample_clock 50100 sample_traffic) = 1200"
    by (simp add: sample_windows(1) burst_length attackers_def)
  have i: "distinct_ips (window_entries DDOS_DETECTION sample_clock 50100 sample_traffic) = 12"
    by (simp add: sample_windows(1) distinct_ips_def burst_ips attackers_def)
  have e: "length (error_responses (window_entries DDOS_DETECTION sample_clock 50100 sample_traffic)) = 720"
    by (simp add: sample_windows(1) burst_errors attackers_def)
  have m: "length (window_entries DDOS_DETECTION sample_clock (50100 + 300) sample_traffic) = 400"
    by (simp only: sample_windows(2) length_replicate)
  from ddos_alert_iff_thresholds [OF d, of sample_clock sample_traffic] d n i e m
  show ?thesis by blast
qed

end
